theory Spec2Isabelle
  imports Main "HOL-Library.Word"
begin

section \<open>The framebuffer screen compositor (qfbscreen.cpp)\<close>

text \<open>
  A shallow embedding of \<^verbatim>\<open>QFbScreen\<close>: the window stack, the accumulated
  damage region, the coalesced update request and the redraw algorithm. The classes
  \<^verbatim>\<open>QFbScreen\<close> only uses (rectangles, regions, images, the painter, the cursor, the
  windows and their backing stores) live in other files; each is introduced below
  with the part of its behaviour that \<^verbatim>\<open>qfbscreen.cpp\<close> relies on.
  Coordinates are C++ \<^verbatim>\<open>int\<close>s; signed overflow is undefined behaviour in C++
  and the model uses mathematical integers.
\<close>

subsection \<open>Points and rectangles\<close>

text \<open>
  Modelled from the spec: \<^verbatim>\<open>QPoint\<close> (qpoint.h is not part of the sources at
  hand), the pair of coordinates behind "translation".
\<close>

record QPoint =
  xp :: int
  yp :: int

definition QPoint_neg :: "QPoint \<Rightarrow> QPoint" where
  "QPoint_neg p = \<lparr>xp = - xp p, yp = - yp p\<rparr>"

text \<open>
  Modelled from the spec: \<^verbatim>\<open>QRect\<close> (qrect.h and qrect.cpp are not part of the
  sources at hand), the "Region/Rect geometry utilities: intersection, translation".
  A rectangle is kept as Qt keeps it, by the coordinates of its top-left pixel
  \<open>(x1, y1)\<close> and of its bottom-right pixel \<open>(x2, y2)\<close>, both inclusive; it is
  empty when \<open>x1 > x2\<close> or \<open>y1 > y2\<close>.
\<close>

record QRect =
  x1 :: int
  y1 :: int
  x2 :: int
  y2 :: int

definition QRect_null :: QRect where
  "QRect_null = \<lparr>x1 = 0, y1 = 0, x2 = - 1, y2 = - 1\<rparr>"

definition QRect_xywh :: "int \<Rightarrow> int \<Rightarrow> int \<Rightarrow> int \<Rightarrow> QRect" where
  "QRect_xywh x y w h = \<lparr>x1 = x, y1 = y, x2 = x + w - 1, y2 = y + h - 1\<rparr>"

definition QRect_isNull :: "QRect \<Rightarrow> bool" where
  "QRect_isNull r \<longleftrightarrow> x2 r = x1 r - 1 \<and> y2 r = y1 r - 1"

definition QRect_isEmpty :: "QRect \<Rightarrow> bool" where
  "QRect_isEmpty r \<longleftrightarrow> x1 r > x2 r \<or> y1 r > y2 r"

definition QRect_width :: "QRect \<Rightarrow> int" where
  "QRect_width r = x2 r - x1 r + 1"

definition QRect_height :: "QRect \<Rightarrow> int" where
  "QRect_height r = y2 r - y1 r + 1"

definition QRect_left :: "QRect \<Rightarrow> int" where
  "QRect_left r = x1 r"

definition QRect_top :: "QRect \<Rightarrow> int" where
  "QRect_top r = y1 r"

definition QRect_topLeft :: "QRect \<Rightarrow> QPoint" where
  "QRect_topLeft r = \<lparr>xp = x1 r, yp = y1 r\<rparr>"

definition QRect_contains :: "QRect \<Rightarrow> int \<Rightarrow> int \<Rightarrow> bool" where
  "QRect_contains r x y \<longleftrightarrow> x1 r \<le> x \<and> x \<le> x2 r \<and> y1 r \<le> y \<and> y \<le> y2 r"

definition QRect_translated_xy :: "QRect \<Rightarrow> int \<Rightarrow> int \<Rightarrow> QRect" where
  "QRect_translated_xy r dx dy =
     \<lparr>x1 = x1 r + dx, y1 = y1 r + dy, x2 = x2 r + dx, y2 = y2 r + dy\<rparr>"

definition QRect_translated :: "QRect \<Rightarrow> QPoint \<Rightarrow> QRect" where
  "QRect_translated r p = QRect_translated_xy r (xp p) (yp p)"

text \<open>
  \<^verbatim>\<open>QRect::intersected\<close>: the null rectangle when either operand is null or the
  two do not overlap; an operand of negative width or height is read from its
  far edge to its near edge first, as \<^verbatim>\<open>QRect::operator&\<close> does.
\<close>

definition QRect_intersected :: "QRect \<Rightarrow> QRect \<Rightarrow> QRect" where
  "QRect_intersected a b =
     (if QRect_isNull a \<or> QRect_isNull b then QRect_null
      else
        let l1 = (if x2 a - x1 a + 1 < 0 then x2 a else x1 a);
            r1 = (if x2 a - x1 a + 1 < 0 then x1 a else x2 a);
            l2 = (if x2 b - x1 b + 1 < 0 then x2 b else x1 b);
            r2 = (if x2 b - x1 b + 1 < 0 then x1 b else x2 b)
        in if l1 > r2 \<or> l2 > r1 then QRect_null
           else
             let t1 = (if y2 a - y1 a + 1 < 0 then y2 a else y1 a);
                 b1 = (if y2 a - y1 a + 1 < 0 then y1 a else y2 a);
                 t2 = (if y2 b - y1 b + 1 < 0 then y2 b else y1 b);
                 b2 = (if y2 b - y1 b + 1 < 0 then y1 b else y2 b)
             in if t1 > b2 \<or> t2 > b1 then QRect_null
                else \<lparr>x1 = max l1 l2, y1 = max t1 t2, x2 = min r1 r2, y2 = min b1 b2\<rparr>)"

text \<open>The pixels of a rectangle, and a rectangle of non-negative width and height.\<close>

definition rect_points :: "QRect \<Rightarrow> (int \<times> int) set" where
  "rect_points r = {p. QRect_contains r (fst p) (snd p)}"

definition rect_proper :: "QRect \<Rightarrow> bool" where
  "rect_proper r \<longleftrightarrow> x1 r - 1 \<le> x2 r \<and> y1 r - 1 \<le> y2 r"

subsection \<open>Regions\<close>

text \<open>
  Modelled from the spec: \<^verbatim>\<open>QRegion\<close> (qregion.cpp is not part of the sources at
  hand), "a set of disjoint (or overlapping, later merged) rectangles". The region
  is kept as the list of the non-empty rectangles united into it; Qt's merge of
  overlapping rectangles into disjoint bands is not carried out, the pixels of the
  region (\<open>region_points\<close>) are the same. An empty rectangle in the list
  stands for nothing; iterating over a region yields its other rectangles
  (\<open>QRegion_rects\<close>).
\<close>

type_synonym QRegion = "QRect list"

definition QRegion_rects :: "QRegion \<Rightarrow> QRect list" where
  "QRegion_rects rg = filter (\<lambda>r. \<not> QRect_isEmpty r) rg"

definition QRegion_empty :: QRegion where
  "QRegion_empty = []"

definition QRegion_isEmpty :: "QRegion \<Rightarrow> bool" where
  "QRegion_isEmpty rg \<longleftrightarrow> list_all QRect_isEmpty rg"

definition QRegion_united_rect :: "QRegion \<Rightarrow> QRect \<Rightarrow> QRegion" where
  "QRegion_united_rect rg r = (if QRect_isEmpty r then rg else rg @ [r])"

definition QRegion_united :: "QRegion \<Rightarrow> QRegion \<Rightarrow> QRegion" where
  "QRegion_united rg rg' = rg @ QRegion_rects rg'"

definition QRegion_intersects :: "QRegion \<Rightarrow> QRect \<Rightarrow> bool" where
  "QRegion_intersects rg r \<longleftrightarrow>
     list_ex (\<lambda>q. \<not> QRect_isEmpty q \<and> \<not> QRect_isEmpty (QRect_intersected q r)) rg"

definition region_points :: "QRegion \<Rightarrow> (int \<times> int) set" where
  "region_points rg = (\<Union>r \<in> set rg. rect_points r)"

subsection \<open>Images and the painter\<close>

text \<open>
  Modelled from the spec: \<^verbatim>\<open>QImage\<close> (qimage.cpp is not part of the sources at
  hand): a width, a height, whether the pixel format "supports an alpha channel",
  and a colour for each pixel \<open>(x, y)\<close> with \<open>0 \<le> x < width\<close> and
  \<open>0 \<le> y < height\<close>. Colours are \<^verbatim>\<open>QRgb\<close> values \<^verbatim>\<open>0xAARRGGBB\<close>; the
  conversion between pixel formats is not modelled.
\<close>

type_synonym QRgb = "32 word"

definition Qt_transparent :: QRgb where
  "Qt_transparent = 0x00000000"

definition Qt_black :: QRgb where
  "Qt_black = 0xFF000000"

record QImage =
  imgWidth :: int
  imgHeight :: int
  hasAlphaChannel :: bool
  pixel :: "int \<times> int \<Rightarrow> QRgb"

definition inImage :: "QImage \<Rightarrow> int \<Rightarrow> int \<Rightarrow> bool" where
  "inImage img x y \<longleftrightarrow> 0 \<le> x \<and> x < imgWidth img \<and> 0 \<le> y \<and> y < imgHeight img"

datatype CompositionMode = CompositionMode_SourceOver | CompositionMode_Source

text \<open>
  Modelled from the spec: \<^verbatim>\<open>QPainter\<close> (qpainter.cpp is not part of the sources at
  hand). The painter is bound to the screen image and carries the composition mode;
  a new painter starts in source-over mode. What a painted pixel becomes depends on
  the mode (\<open>composite\<close>): under "source-replace compositing" the painted colour
  replaces what was there; under "source-over blending" it is laid over it, channel
  by channel on premultiplied colours: the source plus the share of the destination
  that the source's alpha lets through (the rounding of Qt's raster engine is not
  modelled).
  \<open>fillRect\<close> paints the pixels of the rectangle that lie in the image.
  \<open>drawImage\<close> is called with a target and a source rectangle of the same size;
  it paints, for each pixel of the target rectangle that lies in the image, the pixel
  of the source image at the same offset into the source rectangle, where the source
  image has one.
\<close>

record QPainter =
  compositionMode :: CompositionMode

definition new_QPainter :: QPainter where
  "new_QPainter = \<lparr>compositionMode = CompositionMode_SourceOver\<rparr>"

definition setCompositionMode :: "QPainter \<Rightarrow> CompositionMode \<Rightarrow> QPainter" where
  "setCompositionMode p m = p\<lparr>compositionMode := m\<rparr>"

definition qAlpha :: "QRgb \<Rightarrow> nat" where
  "qAlpha c = unat (drop_bit 24 c)"

definition qChannel :: "nat \<Rightarrow> QRgb \<Rightarrow> nat" where
  "qChannel k c = unat (take_bit 8 (drop_bit (8 * k) c))"

definition overChannel :: "nat \<Rightarrow> QRgb \<Rightarrow> QRgb \<Rightarrow> nat" where
  "overChannel k src dst =
     min 255 (qChannel k src + qChannel k dst * (255 - qAlpha src) div 255)"

definition source_over :: "QRgb \<Rightarrow> QRgb \<Rightarrow> QRgb" where
  "source_over src dst =
     word_of_nat (overChannel 0 src dst + 256 * overChannel 1 src dst
                  + 65536 * overChannel 2 src dst + 16777216 * overChannel 3 src dst)"

definition composite :: "CompositionMode \<Rightarrow> QRgb \<Rightarrow> QRgb \<Rightarrow> QRgb" where
  "composite m src dst =
     (case m of
        CompositionMode_Source \<Rightarrow> src
      | CompositionMode_SourceOver \<Rightarrow> source_over src dst)"

definition fillRect :: "QPainter \<Rightarrow> QImage \<Rightarrow> QRect \<Rightarrow> QRgb \<Rightarrow> QImage" where
  "fillRect p img r c =
     img\<lparr>pixel := (\<lambda>(x, y).
        if QRect_contains r x y \<and> inImage img x y
        then composite (compositionMode p) c (pixel img (x, y))
        else pixel img (x, y))\<rparr>"

definition drawImage :: "QPainter \<Rightarrow> QImage \<Rightarrow> QRect \<Rightarrow> QImage \<Rightarrow> QRect \<Rightarrow> QImage" where
  "drawImage p img target src source =
     img\<lparr>pixel := (\<lambda>(x, y).
        let sx = x - x1 target + x1 source; sy = y - y1 target + y1 source
        in if QRect_contains target x y \<and> inImage img x y
              \<and> QRect_contains source sx sy \<and> inImage src sx sy
           then composite (compositionMode p) (pixel src (sx, sy)) (pixel img (x, y))
           else pixel img (x, y))\<rparr>"

subsection \<open>Windows, backing stores and the cursor\<close>

text \<open>
  The screen refers to its windows, to their \<^verbatim>\<open>QWindow\<close>s and to the backing
  stores by pointer; the objects live in three stores indexed by address, so that a
  window reached twice is one object.
\<close>

type_synonym ptr = nat

text \<open>
  Modelled from the spec: \<^verbatim>\<open>QWindow\<close>, \<^verbatim>\<open>QFbWindow\<close> and
  \<^verbatim>\<open>QFbBackingStore\<close> (qwindow.cpp, qfbwindow.cpp and qfbbackingstore.cpp are not
  part of the sources at hand): a window has "a geometry (rectangle, screen-space), a
  visibility flag, a type classification, and an associated backing store", the
  backing store "exposes a lockable pixel image" and is "identity-comparable against
  a window's underlying surface". The compositor runs on one thread, and
  \<^verbatim>\<open>lock()\<close> and \<^verbatim>\<open>unlock()\<close> around the copy leave no trace in the state.
\<close>

datatype WindowType =
    Qt_Widget | Qt_Window | Qt_Dialog | Qt_Sheet | Qt_Drawer | Qt_Popup | Qt_Tool
  | Qt_ToolTip | Qt_SplashScreen | Qt_Desktop | Qt_SubWindow | Qt_ForeignWindow
  | Qt_CoverWindow

record QWindow =
  isVisible :: bool
  windowType :: WindowType

record QFbWindow =
  window :: ptr
  geometry :: QRect
  backingStore :: "ptr option"
  winId :: nat

record QFbBackingStore =
  bsImage :: QImage
  bsWindow :: ptr

text \<open>
  Modelled from the spec: \<^verbatim>\<open>QFbCursor\<close> (qfbcursor.cpp is not part of the sources
  at hand), which "exposes dirty-state, last-painted-rectangle, on-screen state, and
  a draw operation returning the region it touched". The cursor is a parameter of the
  model: a state of any type \<open>'c\<close> and the five operations the screen calls on it.
  \<open>drawCursor\<close> receives the painter and the screen image it paints on.
\<close>

record 'c QFbCursor =
  isDirty :: "'c \<Rightarrow> bool"
  isOnScreen :: "'c \<Rightarrow> bool"
  dirtyRect :: "'c \<Rightarrow> QRect \<times> 'c"
  lastPainted :: "'c \<Rightarrow> QRect"
  drawCursor :: "'c \<Rightarrow> QPainter \<Rightarrow> QImage \<Rightarrow> QRect \<times> 'c \<times> QImage"

text \<open>
  The part of the cursor's "dirty/draw contract" that concerns the dirty flag: the
  cursor is not dirty when it has been drawn.
\<close>

definition drawClearsDirty :: "'c QFbCursor \<Rightarrow> bool" where
  "drawClearsDirty cur \<longleftrightarrow> (\<forall>c painter img. \<not> isDirty cur (fst (snd (drawCursor cur c painter img))))"

subsection \<open>The screen\<close>

text \<open>
  Modelled from the spec: \<^verbatim>\<open>QEvent\<close>, \<^verbatim>\<open>QCoreApplication::postEvent\<close> and
  \<^verbatim>\<open>QWindowSystemInterface\<close> (none of them part of the sources at hand): an event
  is known by its type; "the host's deferred-event mechanism" is the list of the
  events posted to the screen and not yet delivered, oldest first; the "outbound
  notifications" \<^verbatim>\<open>handleWindowActivated\<close> and \<^verbatim>\<open>topWindowChanged\<close> are
  recorded in the order they are sent.
\<close>

datatype QEvent = UpdateRequest | OtherEvent nat

datatype Notification = WindowActivated "ptr option" | TopWindowChanged "ptr option"

text \<open>
  The members of \<^verbatim>\<open>QFbScreen\<close> this file works on, the three object stores, the
  posted events and the notifications sent out so far.
\<close>

record 'c QFbScreen =
  mUpdatePending :: bool
  mCursor :: "'c option"
  mGeometry :: QRect
  mScreenImage :: QImage
  mRepaintRegion :: QRegion
  mWindowStack :: "ptr list"
  mPendingBackingStores :: "ptr list"
  mPainter :: "QPainter option"
  fbWindows :: "ptr \<Rightarrow> QFbWindow"
  qWindows :: "ptr \<Rightarrow> QWindow"
  backingStores :: "ptr \<Rightarrow> QFbBackingStore"
  postedEvents :: "QEvent list"
  announced :: "Notification list"

datatype error = AssertionFailed

subsection \<open>Scheduling and damage\<close>

definition scheduleUpdate :: "'c QFbScreen \<Rightarrow> 'c QFbScreen" where
  "scheduleUpdate s =
     (if \<not> mUpdatePending s
      then s\<lparr>mUpdatePending := True, postedEvents := postedEvents s @ [UpdateRequest]\<rparr>
      else s)"

definition setDirty :: "'c QFbScreen \<Rightarrow> QRect \<Rightarrow> 'c QFbScreen" where
  "setDirty s rect =
     (let intersection = QRect_intersected rect (mGeometry s);
          screenOffset = QRect_topLeft (mGeometry s)
      in scheduleUpdate
           (s\<lparr>mRepaintRegion :=
                 QRegion_united_rect (mRepaintRegion s)
                   (QRect_translated intersection (QPoint_neg screenOffset))\<rparr>))"

subsection \<open>The window stack\<close>

text \<open>
  Modelled from the spec: the \<^verbatim>\<open>QList\<close> operations \<^verbatim>\<open>indexOf\<close> (the first index
  of a value, or \<open>-1\<close>), \<^verbatim>\<open>move\<close> (take the element at one index out and put it in
  at another) and \<^verbatim>\<open>removeAt\<close>; \<^verbatim>\<open>prepend\<close> is \<open>#\<close> and \<^verbatim>\<open>removeOne\<close> is
  \<open>remove1\<close>.
\<close>

fun indexOf :: "'a list \<Rightarrow> 'a \<Rightarrow> int" where
  "indexOf [] v = - 1"
| "indexOf (x # xs) v =
     (if x = v then 0 else (let i = indexOf xs v in if i = - 1 then - 1 else i + 1))"

definition removeAt :: "'a list \<Rightarrow> nat \<Rightarrow> 'a list" where
  "removeAt xs i = take i xs @ drop (Suc i) xs"

definition move :: "'a list \<Rightarrow> nat \<Rightarrow> nat \<Rightarrow> 'a list" where
  "move xs from to =
     (let ys = removeAt xs from in take to ys @ [xs ! from] @ drop to ys)"

fun topWindowOf :: "'c QFbScreen \<Rightarrow> ptr list \<Rightarrow> ptr option" where
  "topWindowOf s [] = None"
| "topWindowOf s (fbw # rest) =
     (if windowType (qWindows s (window (fbWindows s fbw))) = Qt_Window
         \<or> windowType (qWindows s (window (fbWindows s fbw))) = Qt_Dialog
      then Some (window (fbWindows s fbw))
      else topWindowOf s rest)"

definition topWindow :: "'c QFbScreen \<Rightarrow> ptr option" where
  "topWindow s = topWindowOf s (mWindowStack s)"

text \<open>
  The last three lines of \<^verbatim>\<open>addWindow\<close>, \<^verbatim>\<open>removeWindow\<close>, \<^verbatim>\<open>raise\<close> and
  \<^verbatim>\<open>lower\<close>: the top window is looked up and announced twice.
\<close>

definition announceTopWindow :: "'c QFbScreen \<Rightarrow> 'c QFbScreen" where
  "announceTopWindow s =
     (let w = topWindow s
      in s\<lparr>announced := announced s @ [WindowActivated w, TopWindowChanged w]\<rparr>)"

text \<open>
  The loop of \<^verbatim>\<open>addWindow\<close> over the pending backing stores, from index \<open>i\<close>: the
  first store made for the window's \<^verbatim>\<open>QWindow\<close> is given to the window and leaves
  the list.
\<close>

function attachPending :: "nat \<Rightarrow> 'c QFbScreen \<Rightarrow> ptr \<Rightarrow> 'c QFbScreen" where
  "attachPending i s fbw =
     (if i < length (mPendingBackingStores s)
      then
        (let bs = mPendingBackingStores s ! i
         in if bsWindow (backingStores s bs) = window (fbWindows s fbw)
            then s\<lparr>fbWindows := (fbWindows s)(fbw := (fbWindows s fbw)\<lparr>backingStore := Some bs\<rparr>),
                   mPendingBackingStores := removeAt (mPendingBackingStores s) i\<rparr>
            else attachPending (Suc i) s fbw)
      else s)"
  by pat_completeness auto
termination
  by (relation "measure (\<lambda>(i, s, fbw). length (mPendingBackingStores s) - i)") auto

declare attachPending.simps [simp del]

text \<open>\<^verbatim>\<open>Q_ASSERT\<close> stops the program when its condition is false.\<close>

definition addWindow :: "'c QFbScreen \<Rightarrow> ptr \<Rightarrow> error + 'c QFbScreen" where
  "addWindow s fbw =
     (if backingStore (fbWindows s fbw) = None then Inl AssertionFailed
      else
        let s1 = s\<lparr>mWindowStack := fbw # mWindowStack s\<rparr>;
            s2 = (if mPendingBackingStores s1 \<noteq> [] then attachPending 0 s1 fbw else s1);
            s3 = setDirty s2 (geometry (fbWindows s2 fbw))
        in Inr (announceTopWindow s3))"

definition removeWindow :: "'c QFbScreen \<Rightarrow> ptr \<Rightarrow> 'c QFbScreen" where
  "removeWindow s fbw =
     (let s1 = s\<lparr>mWindowStack := remove1 fbw (mWindowStack s)\<rparr>;
          s2 = setDirty s1 (geometry (fbWindows s1 fbw))
      in announceTopWindow s2)"

definition raise :: "'c QFbScreen \<Rightarrow> ptr \<Rightarrow> 'c QFbScreen" where
  "raise s fbw =
     (let index = indexOf (mWindowStack s) fbw
      in if index \<le> 0 then s
         else
           let s1 = s\<lparr>mWindowStack := move (mWindowStack s) (nat index) 0\<rparr>;
               s2 = setDirty s1 (geometry (fbWindows s1 fbw))
           in announceTopWindow s2)"

definition lower :: "'c QFbScreen \<Rightarrow> ptr \<Rightarrow> 'c QFbScreen" where
  "lower s fbw =
     (let index = indexOf (mWindowStack s) fbw
      in if index = - 1 \<or> index = int (length (mWindowStack s)) - 1 then s
         else
           let s1 = s\<lparr>mWindowStack :=
                        move (mWindowStack s) (nat index) (length (mWindowStack s) - 1)\<rparr>;
               s2 = setDirty s1 (geometry (fbWindows s1 fbw))
           in announceTopWindow s2)"

definition windowCount :: "'c QFbScreen \<Rightarrow> int" where
  "windowCount s = int (length (mWindowStack s))"

subsection \<open>The redraw\<close>

text \<open>
  Lines 168 to 171 of \<^verbatim>\<open>doRedraw\<close>: a dirty cursor that is on the screen hands
  over the rectangle it was last painted in, which joins the damage.
\<close>

definition cursorDamage :: "'c QFbCursor \<Rightarrow> 'c QFbScreen \<Rightarrow> 'c QFbScreen" where
  "cursorDamage cur s =
     (case mCursor s of
        None \<Rightarrow> s
      | Some c \<Rightarrow>
          if isDirty cur c \<and> isOnScreen cur c
          then (let (lastCursor, c') = dirtyRect cur c
                in s\<lparr>mCursor := Some c',
                     mRepaintRegion := QRegion_united_rect (mRepaintRegion s) lastCursor\<rparr>)
          else s)"

text \<open>
  The body of the inner loop for one \<open>layerIndex\<close>, the inner loop from the
  bottom of the stack (index \<open>n - 1\<close>) to its top (index \<open>0\<close>), the body of the
  outer loop for one rectangle of the damage, and the outer loop. The painter is
  set to source-replace compositing before the fill, and the windows are drawn with
  the painter as it then is.
\<close>

definition compositeLayer ::
  "'c QFbScreen \<Rightarrow> QPoint \<Rightarrow> QRect \<Rightarrow> QPainter \<Rightarrow> nat \<Rightarrow> QImage \<Rightarrow> QImage" where
  "compositeLayer s screenOffset rect painter layerIndex img =
     (let fbw = fbWindows s (mWindowStack s ! layerIndex)
      in if \<not> isVisible (qWindows s (window fbw)) then img
         else
           let windowRect = QRect_translated (geometry fbw) (QPoint_neg screenOffset);
               windowIntersect =
                 QRect_translated_xy rect (- QRect_left windowRect) (- QRect_top windowRect)
           in case backingStore fbw of
                None \<Rightarrow> img
              | Some bs \<Rightarrow>
                  drawImage painter img rect (bsImage (backingStores s bs)) windowIntersect)"

primrec compositeLayers ::
  "'c QFbScreen \<Rightarrow> QPoint \<Rightarrow> QRect \<Rightarrow> QPainter \<Rightarrow> nat \<Rightarrow> QImage \<Rightarrow> QImage" where
  "compositeLayers s screenOffset rect painter 0 img = img"
| "compositeLayers s screenOffset rect painter (Suc n) img =
     compositeLayers s screenOffset rect painter n
       (compositeLayer s screenOffset rect painter n img)"

definition backgroundColor :: "QImage \<Rightarrow> QRgb" where
  "backgroundColor img = (if hasAlphaChannel img then Qt_transparent else Qt_black)"

definition paintRect ::
  "'c QFbScreen \<Rightarrow> QPoint \<Rightarrow> QRect \<Rightarrow> QPainter \<times> QImage \<Rightarrow> QRect \<Rightarrow> QPainter \<times> QImage" where
  "paintRect s screenOffset screenRect pi r =
     (let rect = QRect_intersected r screenRect
      in if QRect_isEmpty rect then pi
         else
           let painter = setCompositionMode (fst pi) CompositionMode_Source;
               img = fillRect painter (snd pi) rect (backgroundColor (snd pi))
           in (painter,
               compositeLayers s screenOffset rect painter (length (mWindowStack s)) img))"

primrec paintRects ::
  "'c QFbScreen \<Rightarrow> QPoint \<Rightarrow> QRect \<Rightarrow> QRect list \<Rightarrow> QPainter \<times> QImage \<Rightarrow> QPainter \<times> QImage" where
  "paintRects s screenOffset screenRect [] pi = pi"
| "paintRects s screenOffset screenRect (r # rs) pi =
     paintRects s screenOffset screenRect rs (paintRect s screenOffset screenRect pi r)"

text \<open>Lines 175 to 200: the painter is made on first use, then the damage is painted.\<close>

definition paintDamage :: "'c QFbScreen \<Rightarrow> 'c QFbScreen" where
  "paintDamage s =
     (let screenOffset = QRect_topLeft (mGeometry s);
          painter = (case mPainter s of None \<Rightarrow> new_QPainter | Some p \<Rightarrow> p);
          screenRect = QRect_translated (mGeometry s) (QPoint_neg screenOffset);
          pi = paintRects s screenOffset screenRect (QRegion_rects (mRepaintRegion s))
                 (painter, mScreenImage s)
      in s\<lparr>mPainter := Some (fst pi), mScreenImage := snd pi\<rparr>)"

text \<open>
  Lines 202 to 205: the condition of line 202 (\<open>cursorWanted\<close>), and the
  compositing of the cursor where it holds; the result is the touched region so far
  and the state. The painter has been made by then (line 176).
\<close>

definition cursorWanted :: "'c QFbCursor \<Rightarrow> 'c QFbScreen \<Rightarrow> bool" where
  "cursorWanted cur s =
     (case mCursor s of
        None \<Rightarrow> False
      | Some c \<Rightarrow> isDirty cur c \<or> QRegion_intersects (mRepaintRegion s) (lastPainted cur c))"

definition paintCursor :: "'c QFbCursor \<Rightarrow> 'c QFbScreen \<Rightarrow> QRegion \<times> 'c QFbScreen" where
  "paintCursor cur s =
     (case mCursor s of
        None \<Rightarrow> (QRegion_empty, s)
      | Some c \<Rightarrow>
          if isDirty cur c \<or> QRegion_intersects (mRepaintRegion s) (lastPainted cur c)
          then
            (let painter =
                   setCompositionMode
                     (case mPainter s of None \<Rightarrow> new_QPainter | Some p \<Rightarrow> p)
                     CompositionMode_SourceOver;
                 (r, c', img) = drawCursor cur c painter (mScreenImage s)
             in (QRegion_united_rect QRegion_empty r,
                 s\<lparr>mCursor := Some c', mPainter := Some painter, mScreenImage := img\<rparr>))
          else (QRegion_empty, s))"

text \<open>The test of line 172: nothing is damaged and the cursor, if any, is not dirty.\<close>

definition redrawIdle :: "'c QFbCursor \<Rightarrow> 'c QFbScreen \<Rightarrow> bool" where
  "redrawIdle cur s \<longleftrightarrow>
     QRegion_isEmpty (mRepaintRegion s)
     \<and> (case mCursor s of None \<Rightarrow> True | Some c \<Rightarrow> \<not> isDirty cur c)"

definition doRedraw :: "'c QFbCursor \<Rightarrow> 'c QFbScreen \<Rightarrow> QRegion \<times> 'c QFbScreen" where
  "doRedraw cur s =
     (let touchedRegion = QRegion_empty;
          s1 = cursorDamage cur s
      in if QRegion_isEmpty (mRepaintRegion s1)
            \<and> (case mCursor s1 of None \<Rightarrow> True | Some c \<Rightarrow> \<not> isDirty cur c)
         then (touchedRegion, s1)
         else
           let s2 = paintDamage s1;
               (touched, s3) = paintCursor cur s2
           in (QRegion_united touched (mRepaintRegion s3),
               s3\<lparr>mRepaintRegion := QRegion_empty\<rparr>))"

subsection \<open>Events\<close>

text \<open>
  \<^verbatim>\<open>QFbScreen::event\<close>. Modelled from the spec: \<^verbatim>\<open>QObject::event\<close>
  (qobject.cpp is not part of the sources at hand), which gets every other event;
  it is taken not to handle the event and to leave the screen as it is.
\<close>

definition event :: "'c QFbCursor \<Rightarrow> 'c QFbScreen \<Rightarrow> QEvent \<Rightarrow> bool \<times> 'c QFbScreen" where
  "event cur s e =
     (if e = UpdateRequest
      then (let (touched, s1) = doRedraw cur s in (True, s1\<lparr>mUpdatePending := False\<rparr>))
      else (False, s))"

text \<open>
  Modelled from the spec: the event loop, "a deferred work queue": one turn takes
  the oldest posted event off the queue and delivers it to \<^verbatim>\<open>event\<close>.
\<close>

definition processEvent :: "'c QFbCursor \<Rightarrow> 'c QFbScreen \<Rightarrow> 'c QFbScreen" where
  "processEvent cur s =
     (case postedEvents s of
        [] \<Rightarrow> s
      | e # es \<Rightarrow> snd (event cur (s\<lparr>postedEvents := es\<rparr>) e))"

subsection \<open>Sequences of calls\<close>

datatype call =
    AddWindow ptr | RemoveWindow ptr | Raise ptr | Lower ptr
  | SetDirty QRect | ScheduleUpdate | ProcessEvent

definition perform :: "'c QFbCursor \<Rightarrow> 'c QFbScreen \<Rightarrow> call \<Rightarrow> error + 'c QFbScreen" where
  "perform cur s c =
     (case c of
        AddWindow w \<Rightarrow> addWindow s w
      | RemoveWindow w \<Rightarrow> Inr (removeWindow s w)
      | Raise w \<Rightarrow> Inr (raise s w)
      | Lower w \<Rightarrow> Inr (lower s w)
      | SetDirty r \<Rightarrow> Inr (setDirty s r)
      | ScheduleUpdate \<Rightarrow> Inr (scheduleUpdate s)
      | ProcessEvent \<Rightarrow> Inr (processEvent cur s))"

fun performAll :: "'c QFbCursor \<Rightarrow> 'c QFbScreen \<Rightarrow> call list \<Rightarrow> error + 'c QFbScreen" where
  "performAll cur s [] = Inr s"
| "performAll cur s (c # cs) =
     (case perform cur s c of Inl e \<Rightarrow> Inl e | Inr s1 \<Rightarrow> performAll cur s1 cs)"

text \<open>
  The update requests waiting in the queue, and the state of the queue that the
  pending flag stands for: one request waits when the flag is set, none when it is
  not.
\<close>

definition pendingRequests :: "'c QFbScreen \<Rightarrow> nat" where
  "pendingRequests s = count_list (postedEvents s) UpdateRequest"

definition queueOK :: "'c QFbScreen \<Rightarrow> bool" where
  "queueOK s \<longleftrightarrow> pendingRequests s = (if mUpdatePending s then 1 else 0)"

text \<open>The window stack after a sequence of calls, if the sequence runs to its end.\<close>

definition stackAfter :: "'c QFbCursor \<Rightarrow> 'c QFbScreen \<Rightarrow> call list \<Rightarrow> ptr list option" where
  "stackAfter cur s cs =
     (case performAll cur s cs of Inl e \<Rightarrow> None | Inr s' \<Rightarrow> Some (mWindowStack s'))"

text \<open>
  The calls of \<^verbatim>\<open>addWindow\<close> in a sequence, and the calls of \<^verbatim>\<open>removeWindow\<close>
  that find their window in the stack (\<^verbatim>\<open>removeOne\<close> returns true).
\<close>

fun countAdds :: "call list \<Rightarrow> nat" where
  "countAdds [] = 0"
| "countAdds (AddWindow w # cs) = Suc (countAdds cs)"
| "countAdds (c # cs) = countAdds cs"

fun countRemoves :: "'c QFbCursor \<Rightarrow> 'c QFbScreen \<Rightarrow> call list \<Rightarrow> nat" where
  "countRemoves cur s [] = 0"
| "countRemoves cur s (c # cs) =
     (case perform cur s c of
        Inl e \<Rightarrow> 0
      | Inr s1 \<Rightarrow>
          (case c of RemoveWindow w \<Rightarrow> (if w \<in> set (mWindowStack s) then 1 else 0) | _ \<Rightarrow> 0)
          + countRemoves cur s1 cs)"

subsection \<open>What a repainted pixel should show\<close>

text \<open>
  The colour the specification asks for at the screen-local pixel \<open>(x, y)\<close> of a
  repainted rectangle: that of the topmost window (the first in the stack) that is
  visible, has a backing store and whose geometry holds the pixel, read from the
  backing store at the pixel's place in the window; the background colour \<open>bg\<close>
  where there is no such window.
\<close>

fun compositedColor ::
  "'c QFbScreen \<Rightarrow> QPoint \<Rightarrow> QRgb \<Rightarrow> ptr list \<Rightarrow> int \<Rightarrow> int \<Rightarrow> QRgb" where
  "compositedColor s screenOffset bg [] x y = bg"
| "compositedColor s screenOffset bg (w # ws) x y =
     (let fbw = fbWindows s w;
          windowRect = QRect_translated (geometry fbw) (QPoint_neg screenOffset)
      in if isVisible (qWindows s (window fbw)) \<and> QRect_contains windowRect x y
         then (case backingStore fbw of
                 None \<Rightarrow> compositedColor s screenOffset bg ws x y
               | Some bs \<Rightarrow>
                   pixel (bsImage (backingStores s bs)) (x - x1 windowRect, y - y1 windowRect))
         else compositedColor s screenOffset bg ws x y)"

text \<open>
  A backing store fits its window when its image has the size of the window's
  geometry; \<^verbatim>\<open>QFbBackingStore::resize\<close> keeps it so.
\<close>

definition storeFits :: "'c QFbScreen \<Rightarrow> ptr \<Rightarrow> bool" where
  "storeFits s w =
     (case backingStore (fbWindows s w) of
        None \<Rightarrow> True
      | Some bs \<Rightarrow>
          imgWidth (bsImage (backingStores s bs)) = QRect_width (geometry (fbWindows s w))
          \<and> imgHeight (bsImage (backingStores s bs)) = QRect_height (geometry (fbWindows s w)))"

definition storesFit :: "'c QFbScreen \<Rightarrow> bool" where
  "storesFit s = list_all (storeFits s) (mWindowStack s)"

text \<open>
  The same with the extent of the backing store's image in the place of the geometry:
  the colour of the topmost window of the list that is visible and has a backing
  store whose image, laid with its corner on the window's top-left corner, has a
  pixel at \<open>(x, y)\<close>; \<open>None\<close> where there is no such window.
\<close>

fun layerPixel :: "'c QFbScreen \<Rightarrow> QPoint \<Rightarrow> ptr list \<Rightarrow> int \<Rightarrow> int \<Rightarrow> QRgb option" where
  "layerPixel s screenOffset [] x y = None"
| "layerPixel s screenOffset (w # ws) x y =
     (let fbw = fbWindows s w;
          windowRect = QRect_translated (geometry fbw) (QPoint_neg screenOffset)
      in if isVisible (qWindows s (window fbw))
         then (case backingStore fbw of
                 None \<Rightarrow> layerPixel s screenOffset ws x y
               | Some bs \<Rightarrow>
                   if inImage (bsImage (backingStores s bs)) (x - x1 windowRect) (y - y1 windowRect)
                   then Some (pixel (bsImage (backingStores s bs))
                                (x - x1 windowRect, y - y1 windowRect))
                   else layerPixel s screenOffset ws x y)
         else layerPixel s screenOffset ws x y)"

subsection \<open>A sample screen\<close>

text \<open>
  A cursor to run the model on: a white block. It follows the dirty/draw contract:
  \<open>dirtyRect\<close> hands over the last painted rectangle once, \<open>drawCursor\<close> paints
  the block at the current rectangle, remembers it and clears the dirty flag.
\<close>

record BlockCursor =
  bcDirty :: bool
  bcOnScreen :: bool
  bcCurrentRect :: QRect
  bcPrevRect :: QRect

definition blockCursor :: "BlockCursor QFbCursor" where
  "blockCursor =
     \<lparr>isDirty = bcDirty,
      isOnScreen = bcOnScreen,
      dirtyRect = (\<lambda>c. if bcOnScreen c then (bcPrevRect c, c\<lparr>bcOnScreen := False\<rparr>)
                         else (QRect_null, c)),
      lastPainted = bcPrevRect,
      drawCursor = (\<lambda>c painter img.
         (bcCurrentRect c,
          c\<lparr>bcDirty := False, bcOnScreen := True, bcPrevRect := bcCurrentRect c\<rparr>,
          fillRect painter img (bcCurrentRect c) 0xFFFFFFFF))\<rparr>"

text \<open>
  The screen of the scenario: its pixels run from \<open>(0, 0)\<close> to \<open>(100, 100)\<close>,
  and one visible window, from \<open>(10, 10)\<close> to \<open>(50, 50)\<close>, has a backing store
  filled with the colour \<open>C\<close>. Nothing is damaged, the image holds \<open>old\<close>.
\<close>

definition solidImage :: "int \<Rightarrow> int \<Rightarrow> QRgb \<Rightarrow> QImage" where
  "solidImage w h C =
     \<lparr>imgWidth = w, imgHeight = h, hasAlphaChannel = False, pixel = (\<lambda>p. C)\<rparr>"

definition scenarioScreen :: "bool \<Rightarrow> QRgb \<Rightarrow> (int \<times> int \<Rightarrow> QRgb) \<Rightarrow> BlockCursor QFbScreen" where
  "scenarioScreen alpha C old =
     \<lparr>mUpdatePending = False,
      mCursor = None,
      mGeometry = \<lparr>x1 = 0, y1 = 0, x2 = 100, y2 = 100\<rparr>,
      mScreenImage = \<lparr>imgWidth = 101, imgHeight = 101, hasAlphaChannel = alpha, pixel = old\<rparr>,
      mRepaintRegion = QRegion_empty,
      mWindowStack = [1],
      mPendingBackingStores = [],
      mPainter = None,
      fbWindows = (\<lambda>w. \<lparr>window = w, geometry = \<lparr>x1 = 10, y1 = 10, x2 = 50, y2 = 50\<rparr>,
                          backingStore = Some w, winId = w\<rparr>),
      qWindows = (\<lambda>w. \<lparr>isVisible = True, windowType = Qt_Window\<rparr>),
      backingStores = (\<lambda>b. \<lparr>bsImage = solidImage 41 41 C, bsWindow = b\<rparr>),
      postedEvents = [],
      announced = []\<rparr>"

text \<open>
  The same scenario with its rectangles read as \<^verbatim>\<open>QRect(x, y, width, height)\<close>:
  a screen of 100 by 100 pixels and a window of 50 by 50 pixels at \<open>(10, 10)\<close>.
\<close>

definition scenarioScreenWH :: "bool \<Rightarrow> QRgb \<Rightarrow> (int \<times> int \<Rightarrow> QRgb) \<Rightarrow> BlockCursor QFbScreen" where
  "scenarioScreenWH alpha C old =
     (scenarioScreen alpha C old)
       \<lparr>mGeometry := QRect_xywh 0 0 100 100,
        mScreenImage := \<lparr>imgWidth = 100, imgHeight = 100, hasAlphaChannel = alpha, pixel = old\<rparr>,
        fbWindows := (\<lambda>w. \<lparr>window = w, geometry = QRect_xywh 10 10 50 50,
                          backingStore = Some w, winId = w\<rparr>),
        backingStores := (\<lambda>b. \<lparr>bsImage = solidImage 50 50 C, bsWindow = b\<rparr>)\<rparr>"

text \<open>
  The scenario's screen with a window that is smaller than its backing store: the
  window runs from \<open>(10, 10)\<close> to \<open>(20, 20)\<close>, the store's image is 41 by 41.
\<close>

definition oversizedScreen :: "BlockCursor QFbScreen" where
  "oversizedScreen =
     (scenarioScreen False 7 (\<lambda>p. 0))
       \<lparr>fbWindows := (\<lambda>w. \<lparr>window = w, geometry = \<lparr>x1 = 10, y1 = 10, x2 = 20, y2 = 20\<rparr>,
                          backingStore = Some w, winId = w\<rparr>)\<rparr>"

text \<open>
  The scenario's screen with a cursor: one at rest, painted at \<open>(20, 20)\<close>, and
  one that has moved on to \<open>(30, 30)\<close> and is dirty.
\<close>

definition idleCursor :: BlockCursor where
  "idleCursor = \<lparr>bcDirty = False, bcOnScreen = True,
      bcCurrentRect = \<lparr>x1 = 20, y1 = 20, x2 = 23, y2 = 23\<rparr>,
      bcPrevRect = \<lparr>x1 = 20, y1 = 20, x2 = 23, y2 = 23\<rparr>\<rparr>"

definition dirtyCursor :: BlockCursor where
  "dirtyCursor = \<lparr>bcDirty = True, bcOnScreen = True,
      bcCurrentRect = \<lparr>x1 = 30, y1 = 30, x2 = 33, y2 = 33\<rparr>,
      bcPrevRect = \<lparr>x1 = 20, y1 = 20, x2 = 23, y2 = 23\<rparr>\<rparr>"

definition cursorScreen :: "BlockCursor \<Rightarrow> BlockCursor QFbScreen" where
  "cursorScreen c = (scenarioScreen False 7 (\<lambda>p. 0))\<lparr>mCursor := Some c\<rparr>"

text \<open>
  The scenario's screen with no window in the stack, and the same with three pending
  backing stores, the first made for another \<^verbatim>\<open>QWindow\<close> and the other two for
  the \<^verbatim>\<open>QWindow\<close> of window \<open>2\<close>; every window has the backing store \<open>st\<close>.
\<close>

definition emptyScreen :: "BlockCursor QFbScreen" where
  "emptyScreen = (scenarioScreen False 7 (\<lambda>p. 0))\<lparr>mWindowStack := []\<rparr>"

definition pendingScreen :: "ptr option \<Rightarrow> BlockCursor QFbScreen" where
  "pendingScreen st =
     emptyScreen
       \<lparr>mPendingBackingStores := [5, 6, 7],
        fbWindows := (\<lambda>w. \<lparr>window = w, geometry = \<lparr>x1 = 10, y1 = 10, x2 = 50, y2 = 50\<rparr>,
                          backingStore = st, winId = w\<rparr>),
        backingStores := (\<lambda>b. \<lparr>bsImage = solidImage 41 41 7,
                               bsWindow = (if b = 5 then 9 else 2)\<rparr>)\<rparr>"

section \<open>Properties\<close>

subsection \<open>Rectangles and regions\<close>

lemma contains_null: "\<not> QRect_contains QRect_null x y"
  by (simp add: QRect_contains_def QRect_null_def)

lemma rect_points_empty_iff: "rect_points r = {} \<longleftrightarrow> QRect_isEmpty r"
proof
  assume "rect_points r = {}"
  then have "(x1 r, y1 r) \<notin> rect_points r" by simp
  then show "QRect_isEmpty r"
    by (auto simp: rect_points_def QRect_isEmpty_def QRect_contains_def)
next
  assume "QRect_isEmpty r"
  then show "rect_points r = {}"
    by (auto simp: rect_points_def QRect_isEmpty_def QRect_contains_def)
qed

lemma intersected_proper:
  assumes "rect_proper a" "rect_proper b"
  shows "QRect_intersected a b =
     (if QRect_isNull a \<or> QRect_isNull b then QRect_null
      else if x1 a > x2 b \<or> x1 b > x2 a then QRect_null
      else if y1 a > y2 b \<or> y1 b > y2 a then QRect_null
      else \<lparr>x1 = max (x1 a) (x1 b), y1 = max (y1 a) (y1 b),
            x2 = min (x2 a) (x2 b), y2 = min (y2 a) (y2 b)\<rparr>)"
proof -
  have "\<not> x2 a - x1 a + 1 < 0" "\<not> y2 a - y1 a + 1 < 0"
       "\<not> x2 b - x1 b + 1 < 0" "\<not> y2 b - y1 b + 1 < 0"
    using assms by (simp_all add: rect_proper_def)
  then show ?thesis
    by (simp add: QRect_intersected_def Let_def)
qed

lemma contains_intersected:
  assumes "rect_proper a" "rect_proper b"
  shows "QRect_contains (QRect_intersected a b) x y \<longleftrightarrow>
         QRect_contains a x y \<and> QRect_contains b x y"
proof (cases "QRect_isNull a \<or> QRect_isNull b")
  case True
  then have "\<not> (QRect_contains a x y \<and> QRect_contains b x y)"
    by (auto simp: QRect_isNull_def QRect_contains_def)
  with True show ?thesis
    by (simp add: intersected_proper[OF assms] contains_null)
next
  case False
  then show ?thesis
    unfolding intersected_proper[OF assms]
    by (simp add: contains_null) (auto simp: QRect_contains_def)
qed

lemma rect_points_intersected:
  "rect_proper a \<Longrightarrow> rect_proper b \<Longrightarrow>
   rect_points (QRect_intersected a b) = rect_points a \<inter> rect_points b"
  by (auto simp: rect_points_def contains_intersected)

lemma in_rect_points_translated:
  "(x, y) \<in> rect_points (QRect_translated r p) \<longleftrightarrow> (x - xp p, y - yp p) \<in> rect_points r"
  by (auto simp: rect_points_def QRect_translated_def QRect_translated_xy_def QRect_contains_def)

lemma isEmpty_translated: "QRect_isEmpty (QRect_translated r p) = QRect_isEmpty r"
  by (auto simp: QRect_translated_def QRect_translated_xy_def QRect_isEmpty_def)

lemma region_points_united_rect:
  "region_points (QRegion_united_rect rg r) = region_points rg \<union> rect_points r"
  using rect_points_empty_iff[of r]
  by (auto simp: QRegion_united_rect_def region_points_def)

lemma region_points_rects: "region_points (QRegion_rects rg) = region_points rg"
  using rect_points_empty_iff by (auto simp: region_points_def QRegion_rects_def)

lemma region_points_united:
  "region_points (QRegion_united a b) = region_points a \<union> region_points b"
  using rect_points_empty_iff
  by (auto simp: region_points_def QRegion_united_def QRegion_rects_def)

lemma region_isEmpty_points: "QRegion_isEmpty rg \<longleftrightarrow> region_points rg = {}"
  using rect_points_empty_iff by (auto simp: region_points_def QRegion_isEmpty_def list_all_iff)

lemma region_points_empty [simp]: "region_points QRegion_empty = {}"
  by (simp add: region_points_def QRegion_empty_def)

subsection \<open>Damage\<close>

text \<open>
  C2. \<^verbatim>\<open>setDirty(r)\<close> makes the damage region the union of what it was with
  \<open>r\<close> intersected with the screen geometry and moved to screen-local coordinates,
  and it requests a redraw: the update is pending afterwards, and an update request
  is posted unless one was pending already. For a rectangle \<open>r\<close> that has no pixel
  in common with the screen geometry the damage region stays as it is.
\<close>

theorem setDirty_unites_damage:
  "region_points (mRepaintRegion (setDirty s r)) =
     region_points (mRepaintRegion s)
     \<union> rect_points (QRect_translated (QRect_intersected r (mGeometry s))
                       (QPoint_neg (QRect_topLeft (mGeometry s))))
   \<and> mUpdatePending (setDirty s r)
   \<and> postedEvents (setDirty s r) =
       (if mUpdatePending s then postedEvents s else postedEvents s @ [UpdateRequest])
   \<and> (rect_proper r \<and> rect_proper (mGeometry s)
        \<and> rect_points r \<inter> rect_points (mGeometry s) = {}
      \<longrightarrow> mRepaintRegion (setDirty s r) = mRepaintRegion s)"
proof -
  let ?g = "mGeometry s"
  let ?t = "QRect_translated (QRect_intersected r ?g) (QPoint_neg (QRect_topLeft ?g))"
  have rg: "mRepaintRegion (setDirty s r) = QRegion_united_rect (mRepaintRegion s) ?t"
    by (simp add: setDirty_def scheduleUpdate_def Let_def)
  have a: "region_points (mRepaintRegion (setDirty s r)) =
      region_points (mRepaintRegion s) \<union> rect_points ?t"
    by (simp only: rg region_points_united_rect)
  have b: "mUpdatePending (setDirty s r)"
    by (simp add: setDirty_def scheduleUpdate_def Let_def)
  have c: "postedEvents (setDirty s r) =
       (if mUpdatePending s then postedEvents s else postedEvents s @ [UpdateRequest])"
    by (simp add: setDirty_def scheduleUpdate_def Let_def)
  have d: "mRepaintRegion (setDirty s r) = mRepaintRegion s"
    if "rect_proper r" "rect_proper ?g" "rect_points r \<inter> rect_points ?g = {}"
  proof -
    have "rect_points (QRect_intersected r ?g) = {}"
      using that by (simp add: rect_points_intersected)
    then have "QRect_isEmpty ?t"
      by (simp add: rect_points_empty_iff isEmpty_translated)
    then show ?thesis by (simp add: rg QRegion_united_rect_def)
  qed
  from a b c d show ?thesis by blast
qed

theorem setDirty_unites_damage_witness:
  "rect_proper (QRect_xywh 200 200 10 10)
   \<and> rect_proper (mGeometry (scenarioScreen False 7 (\<lambda>p. 0)))
   \<and> rect_points (QRect_xywh 200 200 10 10)
       \<inter> rect_points (mGeometry (scenarioScreen False 7 (\<lambda>p. 0))) = {}
   \<and> mRepaintRegion (setDirty (scenarioScreen False 7 (\<lambda>p. 0)) (QRect_xywh 200 200 10 10))
       = mRepaintRegion (scenarioScreen False 7 (\<lambda>p. 0))
   \<and> postedEvents (setDirty (scenarioScreen False 7 (\<lambda>p. 0)) (QRect_xywh 200 200 10 10))
       = [UpdateRequest]"
  using setDirty_unites_damage[of "scenarioScreen False 7 (\<lambda>p. 0)" "QRect_xywh 200 200 10 10"]
  by (auto simp: scenarioScreen_def QRect_xywh_def rect_proper_def rect_points_def
      QRect_contains_def)

subsection \<open>Painting\<close>

lemma layerPixel_append:
  "layerPixel s off (ws @ vs) x y =
     (case layerPixel s off ws x y of Some c \<Rightarrow> Some c | None \<Rightarrow> layerPixel s off vs x y)"
  by (induction ws) (auto simp: Let_def split: option.splits)

lemma compositeLayer_dims:
  "imgWidth (compositeLayer s off rect p n img) = imgWidth img
   \<and> imgHeight (compositeLayer s off rect p n img) = imgHeight img
   \<and> hasAlphaChannel (compositeLayer s off rect p n img) = hasAlphaChannel img"
  by (simp add: compositeLayer_def drawImage_def Let_def split: option.splits)

lemma inImage_cong:
  "imgWidth a = imgWidth b \<Longrightarrow> imgHeight a = imgHeight b \<Longrightarrow> inImage a x y = inImage b x y"
  by (simp add: inImage_def)

lemma drawImage_translated_pixel:
  assumes "compositionMode p = CompositionMode_Source"
  shows "pixel (drawImage p img rect src (QRect_translated_xy rect (- a) (- b))) (x, y) =
     (if QRect_contains rect x y \<and> inImage img x y \<and> inImage src (x - a) (y - b)
      then pixel src (x - a, y - b) else pixel img (x, y))"
proof -
  have e: "x - x1 rect + (x1 rect + - a) = x - a" "y - y1 rect + (y1 rect + - b) = y - b"
    by simp_all
  have c: "QRect_contains (QRect_translated_xy rect (- a) (- b)) (x - a) (y - b)
           = QRect_contains rect x y"
    by (auto simp: QRect_contains_def QRect_translated_xy_def)
  show ?thesis
    using c assms
    by (simp add: drawImage_def composite_def Let_def QRect_translated_xy_def e)
qed

lemma compositeLayer_pixel:
  assumes "compositionMode p = CompositionMode_Source"
  shows "pixel (compositeLayer s off rect p n img) (x, y) =
     (if QRect_contains rect x y \<and> inImage img x y
      then (case layerPixel s off [mWindowStack s ! n] x y of
              Some c \<Rightarrow> c | None \<Rightarrow> pixel img (x, y))
      else pixel img (x, y))"
  by (simp add: compositeLayer_def drawImage_translated_pixel[OF assms] Let_def
      QRect_left_def QRect_top_def split: option.splits)

lemma compositeLayers_dims:
  "imgWidth (compositeLayers s off rect p n img) = imgWidth img
   \<and> imgHeight (compositeLayers s off rect p n img) = imgHeight img
   \<and> hasAlphaChannel (compositeLayers s off rect p n img) = hasAlphaChannel img"
  by (induction n arbitrary: img) (simp_all add: compositeLayer_dims)

lemma compositeLayers_pixel:
  assumes "compositionMode p = CompositionMode_Source"
  shows "n \<le> length (mWindowStack s) \<Longrightarrow>
   pixel (compositeLayers s off rect p n img) (x, y) =
     (if QRect_contains rect x y \<and> inImage img x y
      then (case layerPixel s off (take n (mWindowStack s)) x y of
              Some c \<Rightarrow> c | None \<Rightarrow> pixel img (x, y))
      else pixel img (x, y))"
proof (induction n arbitrary: img)
  case 0
  then show ?case by simp
next
  case (Suc n)
  let ?img = "compositeLayer s off rect p n img"
  have n: "n \<le> length (mWindowStack s)" "n < length (mWindowStack s)"
    using Suc.prems by simp_all
  have in': "inImage ?img x y = inImage img x y"
    by (rule inImage_cong) (simp_all add: compositeLayer_dims)
  have tk: "take (Suc n) (mWindowStack s) = take n (mWindowStack s) @ [mWindowStack s ! n]"
    using n(2) by (simp add: take_Suc_conv_app_nth)
  show ?case
    unfolding compositeLayers.simps Suc.IH[OF n(1)] in' tk layerPixel_append
      compositeLayer_pixel[OF assms]
    by (auto split: option.splits)
qed

lemma inImage_geometry:
  assumes "imgWidth img = QRect_width g" "imgHeight img = QRect_height g"
  shows "inImage img (x - x1 (QRect_translated g p)) (y - y1 (QRect_translated g p))
         = QRect_contains (QRect_translated g p) x y"
  using assms
  by (auto simp: inImage_def QRect_width_def QRect_height_def QRect_translated_def
      QRect_translated_xy_def QRect_contains_def)

lemma compositedColor_layerPixel:
  "list_all (storeFits s) ws \<Longrightarrow>
   compositedColor s off bg ws x y =
     (case layerPixel s off ws x y of Some c \<Rightarrow> c | None \<Rightarrow> bg)"
proof (induction ws)
  case Nil
  then show ?case by simp
next
  case (Cons w ws)
  then have ih: "compositedColor s off bg ws x y =
     (case layerPixel s off ws x y of Some c \<Rightarrow> c | None \<Rightarrow> bg)"
    by simp
  show ?case
  proof (cases "backingStore (fbWindows s w)")
    case None
    then show ?thesis by (simp add: Let_def ih)
  next
    case (Some bs)
    with Cons.prems have
      "imgWidth (bsImage (backingStores s bs)) = QRect_width (geometry (fbWindows s w))"
      "imgHeight (bsImage (backingStores s bs)) = QRect_height (geometry (fbWindows s w))"
      by (simp_all add: storeFits_def)
    note fit = inImage_geometry[OF this]
    show ?thesis by (simp add: Let_def ih Some fit)
  qed
qed

lemma paintRect_dims:
  "imgWidth (snd (paintRect s off sr pi r)) = imgWidth (snd pi)
   \<and> imgHeight (snd (paintRect s off sr pi r)) = imgHeight (snd pi)
   \<and> hasAlphaChannel (snd (paintRect s off sr pi r)) = hasAlphaChannel (snd pi)"
  by (simp add: paintRect_def Let_def compositeLayers_dims fillRect_def)

lemma mode_set [simp]: "compositionMode (setCompositionMode p m) = m"
  by (simp add: setCompositionMode_def)

lemma painter_Source:
  "setCompositionMode p CompositionMode_Source = \<lparr>compositionMode = CompositionMode_Source\<rparr>"
  by (cases p) (simp add: setCompositionMode_def)

lemma paintRect_pixel:
  "pixel (snd (paintRect s off sr pi r)) (x, y) =
     (if QRect_contains (QRect_intersected r sr) x y \<and> inImage (snd pi) x y
      then (case layerPixel s off (mWindowStack s) x y of
              Some c \<Rightarrow> c | None \<Rightarrow> backgroundColor (snd pi))
      else pixel (snd pi) (x, y))"
proof (cases "QRect_isEmpty (QRect_intersected r sr)")
  case True
  then have "\<not> QRect_contains (QRect_intersected r sr) x y"
    by (auto simp: QRect_isEmpty_def QRect_contains_def)
  with True show ?thesis by (simp add: paintRect_def)
next
  case False
  let ?rect = "QRect_intersected r sr"
  let ?p = "setCompositionMode (fst pi) CompositionMode_Source"
  let ?img = "fillRect ?p (snd pi) ?rect (backgroundColor (snd pi))"
  have m: "compositionMode ?p = CompositionMode_Source" by simp
  have in': "inImage ?img x y = inImage (snd pi) x y"
    by (rule inImage_cong) (simp_all add: fillRect_def)
  have px: "pixel ?img (x, y) =
     (if QRect_contains ?rect x y \<and> inImage (snd pi) x y then backgroundColor (snd pi)
      else pixel (snd pi) (x, y))"
    by (simp add: fillRect_def composite_def)
  have "pixel (snd (paintRect s off sr pi r)) (x, y) =
        pixel (compositeLayers s off ?rect ?p (length (mWindowStack s)) ?img) (x, y)"
    using False by (simp add: paintRect_def Let_def)
  also have "\<dots> = (if QRect_contains ?rect x y \<and> inImage ?img x y
      then (case layerPixel s off (take (length (mWindowStack s)) (mWindowStack s)) x y of
              Some c \<Rightarrow> c | None \<Rightarrow> pixel ?img (x, y))
      else pixel ?img (x, y))"
    by (rule compositeLayers_pixel[OF m]) simp
  finally show ?thesis
    unfolding in' px by (auto split: option.splits)
qed

lemma paintRect_painter:
  "fst (paintRect s off sr pi r) =
     (if QRect_isEmpty (QRect_intersected r sr) then fst pi
      else \<lparr>compositionMode = CompositionMode_Source\<rparr>)"
  by (simp add: paintRect_def Let_def painter_Source)

lemma paintRects_painter:
  "\<exists>r \<in> set rs. \<not> QRect_isEmpty (QRect_intersected r sr) \<Longrightarrow>
   fst (paintRects s off sr rs pi) = \<lparr>compositionMode = CompositionMode_Source\<rparr>"
proof (induction rs arbitrary: pi)
  case Nil
  then show ?case by simp
next
  case (Cons r rs)
  show ?case
  proof (cases "\<exists>q \<in> set rs. \<not> QRect_isEmpty (QRect_intersected q sr)")
    case True
    then show ?thesis by (simp add: Cons.IH)
  next
    case False
    with Cons.prems have ne: "\<not> QRect_isEmpty (QRect_intersected r sr)" by auto
    have keep: "fst (paintRects s off sr rs pj) = fst pj" for pj
      using False
    proof (induction rs arbitrary: pj)
      case Nil
      then show ?case by simp
    next
      case (Cons q qs)
      then show ?case by (simp add: paintRect_painter paintRect_def)
    qed
    show ?thesis using ne by (simp add: keep paintRect_painter)
  qed
qed

lemma paintRects_dims:
  "imgWidth (snd (paintRects s off sr rs pi)) = imgWidth (snd pi)
   \<and> imgHeight (snd (paintRects s off sr rs pi)) = imgHeight (snd pi)
   \<and> hasAlphaChannel (snd (paintRects s off sr rs pi)) = hasAlphaChannel (snd pi)"
  by (induction rs arbitrary: pi) (simp_all add: paintRect_dims)

lemma paintRects_pixel:
  "pixel (snd (paintRects s off sr rs pi)) (x, y) =
     (if (\<exists>r \<in> set rs. QRect_contains (QRect_intersected r sr) x y) \<and> inImage (snd pi) x y
      then (case layerPixel s off (mWindowStack s) x y of
              Some c \<Rightarrow> c | None \<Rightarrow> backgroundColor (snd pi))
      else pixel (snd pi) (x, y))"
proof (induction rs arbitrary: pi)
  case Nil
  then show ?case by simp
next
  case (Cons r rs)
  let ?pi = "paintRect s off sr pi r"
  have in': "inImage (snd ?pi) x y = inImage (snd pi) x y"
    by (rule inImage_cong) (simp_all add: paintRect_dims)
  have bg: "backgroundColor (snd ?pi) = backgroundColor (snd pi)"
    by (simp add: backgroundColor_def paintRect_dims)
  show ?case
    unfolding paintRects.simps Cons.IH in' bg paintRect_pixel
    by auto
qed

lemma paintDamage_pixel:
  assumes "rect_proper (mGeometry s)"
  shows "pixel (mScreenImage (paintDamage s)) (x, y) =
     (if (x, y) \<in> region_points (mRepaintRegion s)
         \<and> QRect_contains (QRect_translated (mGeometry s) (QPoint_neg (QRect_topLeft (mGeometry s)))) x y
         \<and> inImage (mScreenImage s) x y
      then (case layerPixel s (QRect_topLeft (mGeometry s)) (mWindowStack s) x y of
              Some c \<Rightarrow> c | None \<Rightarrow> backgroundColor (mScreenImage s))
      else pixel (mScreenImage s) (x, y))"
proof -
  let ?sr = "QRect_translated (mGeometry s) (QPoint_neg (QRect_topLeft (mGeometry s)))"
  have sr: "rect_proper ?sr"
    using assms by (simp add: rect_proper_def QRect_translated_def QRect_translated_xy_def)
  have "(\<exists>r \<in> set (QRegion_rects (mRepaintRegion s)). QRect_contains (QRect_intersected r ?sr) x y)
        \<longleftrightarrow> (x, y) \<in> region_points (mRepaintRegion s) \<and> QRect_contains ?sr x y"
  proof -
    have "QRect_contains (QRect_intersected r ?sr) x y
          \<longleftrightarrow> QRect_contains r x y \<and> QRect_contains ?sr x y"
      if "r \<in> set (QRegion_rects (mRepaintRegion s))" for r
    proof -
      from that have "rect_proper r"
        by (auto simp: QRegion_rects_def QRect_isEmpty_def rect_proper_def)
      then show ?thesis using sr by (rule contains_intersected)
    qed
    moreover have "(x, y) \<in> region_points (mRepaintRegion s)
       \<longleftrightarrow> (\<exists>r \<in> set (QRegion_rects (mRepaintRegion s)). QRect_contains r x y)"
      unfolding region_points_rects[symmetric, of "mRepaintRegion s"]
      by (simp add: region_points_def rect_points_def)
    ultimately show ?thesis by auto
  qed
  then show ?thesis
    by (auto simp: paintDamage_def Let_def paintRects_pixel split: option.splits)
qed

lemma paintDamage_other:
  "mCursor (paintDamage s) = mCursor s \<and> mRepaintRegion (paintDamage s) = mRepaintRegion s
   \<and> mWindowStack (paintDamage s) = mWindowStack s \<and> mGeometry (paintDamage s) = mGeometry s
   \<and> mUpdatePending (paintDamage s) = mUpdatePending s
   \<and> postedEvents (paintDamage s) = postedEvents s"
  by (simp add: paintDamage_def Let_def)


subsection \<open>The redraw as a whole\<close>

lemma cursorDamage_clean:
  "mCursor s = None \<or> (\<exists>c. mCursor s = Some c \<and> \<not> isDirty cur c) \<Longrightarrow> cursorDamage cur s = s"
  by (auto simp: cursorDamage_def)

lemma cursorDamage_region:
  "region_points (mRepaintRegion s) \<subseteq> region_points (mRepaintRegion (cursorDamage cur s))"
  by (auto simp: cursorDamage_def region_points_united_rect split: option.splits prod.splits)

lemma paintCursor_region: "mRepaintRegion (snd (paintCursor cur s)) = mRepaintRegion s"
  by (simp add: paintCursor_def Let_def split: option.splits prod.splits)

lemma paintDamage_idle:
  "QRegion_isEmpty (mRepaintRegion s) \<Longrightarrow> mScreenImage (paintDamage s) = mScreenImage s"
proof -
  assume "QRegion_isEmpty (mRepaintRegion s)"
  then have "QRegion_rects (mRepaintRegion s) = []"
    by (auto simp: QRegion_isEmpty_def QRegion_rects_def list_all_iff filter_empty_conv)
  then show ?thesis by (simp add: paintDamage_def Let_def)
qed

lemma doRedraw_idle:
  assumes "QRegion_isEmpty (mRepaintRegion s)"
    and "mCursor s = None \<or> (\<exists>c. mCursor s = Some c \<and> \<not> isDirty cur c)"
  shows "doRedraw cur s = (QRegion_empty, s)"
proof -
  have "cursorDamage cur s = s" using assms(2) by (rule cursorDamage_clean)
  then show ?thesis using assms by (auto simp: doRedraw_def Let_def)
qed

lemma doRedraw_cases:
  "doRedraw cur s =
     (if redrawIdle cur (cursorDamage cur s) then (QRegion_empty, cursorDamage cur s)
      else (QRegion_united (fst (paintCursor cur (paintDamage (cursorDamage cur s))))
              (mRepaintRegion (cursorDamage cur s)),
            (snd (paintCursor cur (paintDamage (cursorDamage cur s))))
              \<lparr>mRepaintRegion := QRegion_empty\<rparr>))"
  by (simp add: doRedraw_def redrawIdle_def Let_def paintCursor_region paintDamage_other
      case_prod_beta)

lemma doRedraw_touched:
  "region_points (mRepaintRegion (cursorDamage cur s)) \<subseteq> region_points (fst (doRedraw cur s))"
  by (auto simp: doRedraw_cases redrawIdle_def region_isEmpty_points region_points_united)

lemma doRedraw_region_empty:
  "region_points (mRepaintRegion (snd (doRedraw cur s))) = {}"
  by (auto simp: doRedraw_cases redrawIdle_def region_isEmpty_points)

text \<open>
  C4. When the damage region is empty and there is no cursor, or the cursor is not
  dirty, \<^verbatim>\<open>doRedraw\<close> returns the empty region and leaves the whole screen state
  as it was: the image is not painted on, no painter is made.
\<close>

theorem doRedraw_nothing_to_do:
  "QRegion_isEmpty (mRepaintRegion s)
   \<and> (mCursor s = None \<or> (\<exists>c. mCursor s = Some c \<and> \<not> isDirty cur c))
   \<Longrightarrow> doRedraw cur s = (QRegion_empty, s)"
  using doRedraw_idle by blast

theorem doRedraw_nothing_to_do_witness:
  "QRegion_isEmpty (mRepaintRegion ((scenarioScreen False 7 (\<lambda>p. 0))\<lparr>mCursor := Some idleCursor\<rparr>))
   \<and> \<not> isDirty blockCursor idleCursor
   \<and> doRedraw blockCursor ((scenarioScreen False 7 (\<lambda>p. 0))\<lparr>mCursor := Some idleCursor\<rparr>)
       = (QRegion_empty, (scenarioScreen False 7 (\<lambda>p. 0))\<lparr>mCursor := Some idleCursor\<rparr>)"
  using doRedraw_nothing_to_do[of "(scenarioScreen False 7 (\<lambda>p. 0))\<lparr>mCursor := Some idleCursor\<rparr>" blockCursor]
  by (simp add: scenarioScreen_def QRegion_isEmpty_def QRegion_empty_def blockCursor_def idleCursor_def)

text \<open>
  C3. The region \<^verbatim>\<open>doRedraw\<close> returns holds every pixel of the damage region it
  found, and of that region with the cursor's old rectangle added, which is the
  region it consumes; after \<^verbatim>\<open>setDirty(r)\<close> it holds every pixel of \<open>r\<close>
  intersected with the screen geometry (in the screen-local coordinates of the
  region); and the damage region is empty when \<^verbatim>\<open>doRedraw\<close> has returned.
\<close>

theorem doRedraw_touched_superset:
  "region_points (mRepaintRegion s) \<subseteq> region_points (fst (doRedraw cur s))
   \<and> region_points (mRepaintRegion (cursorDamage cur s)) \<subseteq> region_points (fst (doRedraw cur s))
   \<and> rect_points (QRect_translated (QRect_intersected r (mGeometry s))
                     (QPoint_neg (QRect_topLeft (mGeometry s))))
       \<subseteq> region_points (fst (doRedraw cur (setDirty s r)))
   \<and> QRegion_isEmpty (mRepaintRegion (snd (doRedraw cur s)))"
proof -
  have a: "region_points (mRepaintRegion s) \<subseteq> region_points (fst (doRedraw cur s))" for s :: "'a QFbScreen"
    using cursorDamage_region[of s cur] doRedraw_touched[of cur s] by blast
  have "rect_points (QRect_translated (QRect_intersected r (mGeometry s))
                     (QPoint_neg (QRect_topLeft (mGeometry s))))
        \<subseteq> region_points (mRepaintRegion (setDirty s r))"
    by (simp add: setDirty_def scheduleUpdate_def Let_def region_points_united_rect)
  with a[of "setDirty s r"] have c: "rect_points (QRect_translated (QRect_intersected r (mGeometry s))
                     (QPoint_neg (QRect_topLeft (mGeometry s))))
       \<subseteq> region_points (fst (doRedraw cur (setDirty s r)))" by blast
  from a[of s] doRedraw_touched[of cur s] c doRedraw_region_empty[of cur s]
  show ?thesis by (simp add: region_isEmpty_points)
qed

subsection \<open>What the redraw paints\<close>

lemma paintDamage_composited:
  assumes "rect_proper (mGeometry s)" "storesFit s"
  shows "pixel (mScreenImage (paintDamage s)) (x, y) =
     (if (x, y) \<in> region_points (mRepaintRegion s)
         \<and> QRect_contains (QRect_translated (mGeometry s) (QPoint_neg (QRect_topLeft (mGeometry s)))) x y
         \<and> inImage (mScreenImage s) x y
      then compositedColor s (QRect_topLeft (mGeometry s)) (backgroundColor (mScreenImage s))
             (mWindowStack s) x y
      else pixel (mScreenImage s) (x, y))"
  using assms(2)
  by (simp add: paintDamage_pixel[OF assms(1)] compositedColor_layerPixel storesFit_def)

lemma doRedraw_no_cursor_image:
  assumes "mCursor s = None"
  shows "mScreenImage (snd (doRedraw cur s)) = mScreenImage (paintDamage s)"
proof -
  have cd: "cursorDamage cur s = s" using assms by (simp add: cursorDamage_def)
  have pc: "paintCursor cur (paintDamage s) = (QRegion_empty, paintDamage s)"
    using assms by (simp add: paintCursor_def paintDamage_other)
  show ?thesis
    by (simp add: doRedraw_cases cd pc redrawIdle_def paintDamage_idle)
qed

lemma scenario_damaged:
  "mRepaintRegion (setDirty (scenarioScreen alpha C old) \<lparr>x1 = 0, y1 = 0, x2 = 100, y2 = 100\<rparr>)
     = [\<lparr>x1 = 0, y1 = 0, x2 = 100, y2 = 100\<rparr>]"
  by (simp add: setDirty_def scheduleUpdate_def Let_def scenarioScreen_def QRect_intersected_def
      QRect_isNull_def QRect_translated_def QRect_translated_xy_def QPoint_neg_def
      QRect_topLeft_def QRegion_united_rect_def QRegion_empty_def QRect_isEmpty_def)

lemma setDirty_other:
  "mCursor (setDirty s r) = mCursor s \<and> mGeometry (setDirty s r) = mGeometry s
   \<and> mScreenImage (setDirty s r) = mScreenImage s \<and> mWindowStack (setDirty s r) = mWindowStack s
   \<and> fbWindows (setDirty s r) = fbWindows s \<and> qWindows (setDirty s r) = qWindows s
   \<and> backingStores (setDirty s r) = backingStores s
   \<and> mPendingBackingStores (setDirty s r) = mPendingBackingStores s
   \<and> mPainter (setDirty s r) = mPainter s \<and> announced (setDirty s r) = announced s"
  by (simp add: setDirty_def scheduleUpdate_def Let_def)

lemma compositedColor_cong:
  "fbWindows a = fbWindows b \<Longrightarrow> qWindows a = qWindows b \<Longrightarrow> backingStores a = backingStores b
   \<Longrightarrow> compositedColor a off bg ws x y = compositedColor b off bg ws x y"
  by (induction ws) (auto simp: Let_def split: option.splits)

lemma scenario_pixel:
  assumes "0 \<le> x" "x \<le> 100" "0 \<le> y" "y \<le> 100"
  shows "pixel (mScreenImage (snd (doRedraw blockCursor
           (setDirty (scenarioScreen alpha C old) \<lparr>x1 = 0, y1 = 0, x2 = 100, y2 = 100\<rparr>)))) (x, y)
         = (if 10 \<le> x \<and> x \<le> 50 \<and> 10 \<le> y \<and> y \<le> 50 then C
            else if alpha then Qt_transparent else Qt_black)"
proof -
  let ?s = "scenarioScreen alpha C old"
  let ?d = "setDirty ?s \<lparr>x1 = 0, y1 = 0, x2 = 100, y2 = 100\<rparr>"
  have g: "mGeometry ?d = \<lparr>x1 = 0, y1 = 0, x2 = 100, y2 = 100\<rparr>"
    by (simp add: setDirty_other) (simp add: scenarioScreen_def)
  have gp: "rect_proper (mGeometry ?d)" by (simp add: g rect_proper_def)
  have fit: "storesFit ?d"
    by (simp add: storesFit_def storeFits_def setDirty_other scenarioScreen_def solidImage_def
        QRect_width_def QRect_height_def)
  have nc: "mCursor ?d = None"
    by (simp add: setDirty_other) (simp add: scenarioScreen_def)
  have img: "mScreenImage ?d = mScreenImage ?s" by (simp add: setDirty_other)
  have inI: "inImage (mScreenImage ?s) x y"
    using assms by (simp add: scenarioScreen_def inImage_def)
  have inR: "(x, y) \<in> region_points (mRepaintRegion ?d)"
    using assms by (simp add: scenario_damaged region_points_def rect_points_def QRect_contains_def)
  have inS: "QRect_contains (QRect_translated (mGeometry ?d) (QPoint_neg (QRect_topLeft (mGeometry ?d)))) x y"
    using assms by (simp add: g QRect_translated_def QRect_translated_xy_def QPoint_neg_def
        QRect_topLeft_def QRect_contains_def)
  have ws: "mWindowStack ?d = [1]"
    by (simp add: setDirty_other scenarioScreen_def)
  have bg: "backgroundColor (mScreenImage ?d) = (if alpha then Qt_transparent else Qt_black)"
    by (simp add: setDirty_other scenarioScreen_def backgroundColor_def)
  have "compositedColor ?d (QRect_topLeft (mGeometry ?d)) (backgroundColor (mScreenImage ?d))
             (mWindowStack ?d) x y
        = compositedColor ?s (QRect_topLeft (mGeometry ?d)) (backgroundColor (mScreenImage ?d))
             (mWindowStack ?d) x y"
    by (rule compositedColor_cong) (simp_all add: setDirty_other)
  also have "\<dots> = (if 10 \<le> x \<and> x \<le> 50 \<and> 10 \<le> y \<and> y \<le> 50 then C
            else if alpha then Qt_transparent else Qt_black)"
    unfolding g ws bg
    by (simp add: scenarioScreen_def solidImage_def Let_def
         QRect_translated_def QRect_translated_xy_def QPoint_neg_def QRect_topLeft_def
         QRect_contains_def)
  finally have cc: "compositedColor ?d (QRect_topLeft (mGeometry ?d))
             (backgroundColor (mScreenImage ?d)) (mWindowStack ?d) x y
        = (if 10 \<le> x \<and> x \<le> 50 \<and> 10 \<le> y \<and> y \<le> 50 then C
            else if alpha then Qt_transparent else Qt_black)" .
  have "pixel (mScreenImage (snd (doRedraw blockCursor ?d))) (x, y)
        = pixel (mScreenImage (paintDamage ?d)) (x, y)"
    by (simp add: doRedraw_no_cursor_image[OF nc])
  also have "\<dots> = compositedColor ?d (QRect_topLeft (mGeometry ?d))
       (backgroundColor (mScreenImage ?d)) (mWindowStack ?d) x y"
    using inR inS inI by (simp add: paintDamage_composited[OF gp fit] img)
  finally show ?thesis by (simp only: cc)
qed

text \<open>
  The painted image depends on the pixels of the damage region only, not on the
  rectangles it is made of.
\<close>

lemma layerPixel_cong:
  "fbWindows a = fbWindows b \<Longrightarrow> qWindows a = qWindows b \<Longrightarrow> backingStores a = backingStores b
   \<Longrightarrow> layerPixel a off ws x y = layerPixel b off ws x y"
  by (induction ws) (auto simp: Let_def split: option.splits)

lemma paintDamage_decomposition:
  assumes "rect_proper (mGeometry s)" "region_points rg = region_points (mRepaintRegion s)"
  shows "pixel (mScreenImage (paintDamage (s\<lparr>mRepaintRegion := rg\<rparr>))) (x, y)
         = pixel (mScreenImage (paintDamage s)) (x, y)"
proof -
  let ?t = "s\<lparr>mRepaintRegion := rg\<rparr>"
  have g: "rect_proper (mGeometry ?t)" using assms(1) by simp
  have l: "layerPixel ?t off ws x y = layerPixel s off ws x y" for off ws
    by (rule layerPixel_cong) simp_all
  show ?thesis
    unfolding paintDamage_pixel[OF g] paintDamage_pixel[OF assms(1)]
    by (auto simp: assms(2) l split: option.splits)
qed

text \<open>
  With the scenario's rectangles read as \<^verbatim>\<open>QRect(x, y, width, height)\<close> the
  window's 50 by 50 pixels are \<open>[10, 59] \<times> [10, 59]\<close>, and these show \<open>C\<close>.
\<close>

lemma scenarioWH_pixel:
  assumes "0 \<le> x" "x < 100" "0 \<le> y" "y < 100"
  shows "pixel (mScreenImage (snd (doRedraw blockCursor
           (setDirty (scenarioScreenWH alpha C old) (QRect_xywh 0 0 100 100))))) (x, y)
         = (if 10 \<le> x \<and> x \<le> 59 \<and> 10 \<le> y \<and> y \<le> 59 then C
            else if alpha then Qt_transparent else Qt_black)"
proof -
  let ?s = "scenarioScreenWH alpha C old"
  let ?d = "setDirty ?s (QRect_xywh 0 0 100 100)"
  have g: "mGeometry ?d = \<lparr>x1 = 0, y1 = 0, x2 = 99, y2 = 99\<rparr>"
    by (simp add: setDirty_other scenarioScreenWH_def QRect_xywh_def)
  have gp: "rect_proper (mGeometry ?d)" by (simp add: g rect_proper_def)
  have fit: "storesFit ?d"
    by (simp add: storesFit_def storeFits_def setDirty_other scenarioScreenWH_def
        scenarioScreen_def solidImage_def QRect_width_def QRect_height_def QRect_xywh_def)
  have nc: "mCursor ?d = None"
    by (simp add: setDirty_other scenarioScreenWH_def scenarioScreen_def)
  have img: "mScreenImage ?d = mScreenImage ?s" by (simp add: setDirty_other)
  have inI: "inImage (mScreenImage ?s) x y"
    using assms by (simp add: scenarioScreenWH_def inImage_def)
  have rg: "mRepaintRegion ?d = [\<lparr>x1 = 0, y1 = 0, x2 = 99, y2 = 99\<rparr>]"
    by (simp add: setDirty_def scheduleUpdate_def Let_def scenarioScreenWH_def scenarioScreen_def
      QRect_xywh_def QRect_intersected_def
      QRect_isNull_def QRect_translated_def QRect_translated_xy_def QPoint_neg_def
      QRect_topLeft_def QRegion_united_rect_def QRegion_empty_def QRect_isEmpty_def)
  have inR: "(x, y) \<in> region_points (mRepaintRegion ?d)"
    using assms by (simp add: rg region_points_def rect_points_def QRect_contains_def)
  have inS: "QRect_contains (QRect_translated (mGeometry ?d) (QPoint_neg (QRect_topLeft (mGeometry ?d)))) x y"
    using assms by (simp add: g QRect_translated_def QRect_translated_xy_def QPoint_neg_def
        QRect_topLeft_def QRect_contains_def)
  have ws: "mWindowStack ?d = [1]"
    by (simp add: setDirty_other scenarioScreenWH_def scenarioScreen_def)
  have bg: "backgroundColor (mScreenImage ?d) = (if alpha then Qt_transparent else Qt_black)"
    by (simp add: setDirty_other scenarioScreenWH_def backgroundColor_def)
  have "compositedColor ?d (QRect_topLeft (mGeometry ?d)) (backgroundColor (mScreenImage ?d))
             (mWindowStack ?d) x y
        = compositedColor ?s (QRect_topLeft (mGeometry ?d)) (backgroundColor (mScreenImage ?d))
             (mWindowStack ?d) x y"
    by (rule compositedColor_cong) (simp_all add: setDirty_other)
  also have "\<dots> = (if 10 \<le> x \<and> x \<le> 59 \<and> 10 \<le> y \<and> y \<le> 59 then C
            else if alpha then Qt_transparent else Qt_black)"
    unfolding g ws bg
    by (simp add: scenarioScreenWH_def scenarioScreen_def solidImage_def Let_def QRect_xywh_def
         QRect_translated_def QRect_translated_xy_def QPoint_neg_def QRect_topLeft_def
         QRect_contains_def)
  finally have cc: "compositedColor ?d (QRect_topLeft (mGeometry ?d))
             (backgroundColor (mScreenImage ?d)) (mWindowStack ?d) x y
        = (if 10 \<le> x \<and> x \<le> 59 \<and> 10 \<le> y \<and> y \<le> 59 then C
            else if alpha then Qt_transparent else Qt_black)" .
  have "pixel (mScreenImage (snd (doRedraw blockCursor ?d))) (x, y)
        = pixel (mScreenImage (paintDamage ?d)) (x, y)"
    by (simp add: doRedraw_no_cursor_image[OF nc])
  also have "\<dots> = compositedColor ?d (QRect_topLeft (mGeometry ?d))
       (backgroundColor (mScreenImage ?d)) (mWindowStack ?d) x y"
    using inR inS inI by (simp add: paintDamage_composited[OF gp fit] img)
  finally show ?thesis by (simp only: cc)
qed

lemma paintDamage_painter:
  assumes "rect_proper (mGeometry s)" "(x, y) \<in> region_points (mRepaintRegion s)"
    "QRect_contains
       (QRect_translated (mGeometry s) (QPoint_neg (QRect_topLeft (mGeometry s)))) x y"
  shows "mPainter (paintDamage s) = Some \<lparr>compositionMode = CompositionMode_Source\<rparr>"
proof -
  let ?sr = "QRect_translated (mGeometry s) (QPoint_neg (QRect_topLeft (mGeometry s)))"
  have sr: "rect_proper ?sr"
    using assms(1) by (simp add: rect_proper_def QRect_translated_def QRect_translated_xy_def)
  from assms(2) obtain r where r: "r \<in> set (QRegion_rects (mRepaintRegion s))"
    "QRect_contains r x y"
    unfolding region_points_rects[symmetric, of "mRepaintRegion s"]
    by (auto simp: region_points_def rect_points_def)
  then have "rect_proper r"
    by (auto simp: QRegion_rects_def QRect_isEmpty_def rect_proper_def)
  then have "QRect_contains (QRect_intersected r ?sr) x y"
    using sr r(2) assms(3) by (simp add: contains_intersected)
  then have "\<not> QRect_isEmpty (QRect_intersected r ?sr)"
    by (auto simp: QRect_contains_def QRect_isEmpty_def)
  with r(1) have "\<exists>r \<in> set (QRegion_rects (mRepaintRegion s)).
      \<not> QRect_isEmpty (QRect_intersected r ?sr)" by blast
  then show ?thesis
    by (simp add: paintDamage_def Let_def paintRects_painter)
qed

text \<open>
  C1, as the code has it. After lines 175 to 200 of \<^verbatim>\<open>doRedraw\<close>, on a screen of
  non-negative width and height, every pixel of the image that lies in a damaged
  rectangle clipped to the screen's local bounds shows the colour of the topmost
  visible window that has a backing store whose image, laid at the window's
  top-left corner, covers the pixel, and the background colour where there is no
  such window: the rectangle is filled first, under source-replace compositing,
  transparent if the image has an alpha channel and black otherwise, and the stack
  is drawn from the bottom to the top under the same compositing, so that the window
  on top wins; every other pixel is as it was, and the painter is left in
  source-replace mode. The code does not look at a window's geometry beyond its
  top-left corner: the pixels a window paints are those of its geometry where its
  backing store has the size of the window. Without a cursor this is the image
  \<^verbatim>\<open>doRedraw\<close> leaves. For the screen whose pixels run from \<open>(0, 0)\<close> to
  \<open>(100, 100)\<close>, with one visible window from \<open>(10, 10)\<close> to \<open>(50, 50)\<close> whose
  backing store is filled with \<open>C\<close>, \<^verbatim>\<open>setDirty\<close> of the whole screen and a
  redraw leave \<open>C\<close> on \<open>[10, 50] \<times> [10, 50]\<close> and the background colour on every
  other pixel.
\<close>

theorem doRedraw_composites_damage:
  "(rect_proper (mGeometry s) \<longrightarrow>
      pixel (mScreenImage (paintDamage s)) (x, y) =
        (if (x, y) \<in> region_points (mRepaintRegion s)
            \<and> QRect_contains
                (QRect_translated (mGeometry s) (QPoint_neg (QRect_topLeft (mGeometry s)))) x y
            \<and> inImage (mScreenImage s) x y
         then (case layerPixel s (QRect_topLeft (mGeometry s)) (mWindowStack s) x y of
                 Some c \<Rightarrow> c | None \<Rightarrow> backgroundColor (mScreenImage s))
         else pixel (mScreenImage s) (x, y)))
   \<and> (rect_proper (mGeometry s) \<and> (x, y) \<in> region_points (mRepaintRegion s)
        \<and> QRect_contains
            (QRect_translated (mGeometry s) (QPoint_neg (QRect_topLeft (mGeometry s)))) x y
        \<longrightarrow> mPainter (paintDamage s) = Some \<lparr>compositionMode = CompositionMode_Source\<rparr>)
   \<and> (storesFit s \<longrightarrow>
        (case layerPixel s (QRect_topLeft (mGeometry s)) (mWindowStack s) x y of
           Some c \<Rightarrow> c | None \<Rightarrow> backgroundColor (mScreenImage s))
        = compositedColor s (QRect_topLeft (mGeometry s)) (backgroundColor (mScreenImage s))
            (mWindowStack s) x y)
   \<and> (mCursor s = None \<longrightarrow>
        mScreenImage (snd (doRedraw cur s)) = mScreenImage (paintDamage s))
   \<and> (0 \<le> x \<and> x \<le> 100 \<and> 0 \<le> y \<and> y \<le> 100 \<longrightarrow>
        pixel (mScreenImage (snd (doRedraw blockCursor
           (setDirty (scenarioScreen alpha C old) \<lparr>x1 = 0, y1 = 0, x2 = 100, y2 = 100\<rparr>)))) (x, y)
         = (if 10 \<le> x \<and> x \<le> 50 \<and> 10 \<le> y \<and> y \<le> 50 then C
            else if alpha then Qt_transparent else Qt_black))"
proof -
  note a = paintDamage_pixel[of s x y]
  note b = paintDamage_painter[of s x y]
  have c: "(case layerPixel s (QRect_topLeft (mGeometry s)) (mWindowStack s) x y of
           Some c \<Rightarrow> c | None \<Rightarrow> backgroundColor (mScreenImage s))
        = compositedColor s (QRect_topLeft (mGeometry s)) (backgroundColor (mScreenImage s))
            (mWindowStack s) x y" if "storesFit s"
    using that by (simp add: compositedColor_layerPixel storesFit_def)
  note d = doRedraw_no_cursor_image[of s cur]
  note e = scenario_pixel[of x y alpha C old]
  from a b c d e show ?thesis by blast
qed

theorem doRedraw_composites_damage_witness:
  "rect_proper (mGeometry (setDirty (scenarioScreen False 7 (\<lambda>p. 0)) \<lparr>x1 = 0, y1 = 0, x2 = 100, y2 = 100\<rparr>))
   \<and> storesFit (setDirty (scenarioScreen False 7 (\<lambda>p. 0)) \<lparr>x1 = 0, y1 = 0, x2 = 100, y2 = 100\<rparr>)
   \<and> mCursor (setDirty (scenarioScreen False 7 (\<lambda>p. 0)) \<lparr>x1 = 0, y1 = 0, x2 = 100, y2 = 100\<rparr>) = None
   \<and> (20, 20) \<in> region_points (mRepaintRegion
         (setDirty (scenarioScreen False 7 (\<lambda>p. 0)) \<lparr>x1 = 0, y1 = 0, x2 = 100, y2 = 100\<rparr>))
   \<and> mPainter (paintDamage
         (setDirty (scenarioScreen False 7 (\<lambda>p. 0)) \<lparr>x1 = 0, y1 = 0, x2 = 100, y2 = 100\<rparr>))
       = Some \<lparr>compositionMode = CompositionMode_Source\<rparr>
   \<and> pixel (mScreenImage (paintDamage
         (setDirty (scenarioScreen False 7 (\<lambda>p. 0)) \<lparr>x1 = 0, y1 = 0, x2 = 100, y2 = 100\<rparr>))) (20, 20) = 7
   \<and> compositedColor
         (setDirty (scenarioScreen False 7 (\<lambda>p. 0)) \<lparr>x1 = 0, y1 = 0, x2 = 100, y2 = 100\<rparr>)
         (QRect_topLeft (mGeometry
           (setDirty (scenarioScreen False 7 (\<lambda>p. 0)) \<lparr>x1 = 0, y1 = 0, x2 = 100, y2 = 100\<rparr>)))
         (backgroundColor (mScreenImage
           (setDirty (scenarioScreen False 7 (\<lambda>p. 0)) \<lparr>x1 = 0, y1 = 0, x2 = 100, y2 = 100\<rparr>)))
         (mWindowStack
           (setDirty (scenarioScreen False 7 (\<lambda>p. 0)) \<lparr>x1 = 0, y1 = 0, x2 = 100, y2 = 100\<rparr>))
         20 20 = 7
   \<and> pixel (mScreenImage (snd (doRedraw blockCursor
         (setDirty (scenarioScreen False 7 (\<lambda>p. 0)) \<lparr>x1 = 0, y1 = 0, x2 = 100, y2 = 100\<rparr>)))) (20, 20) = 7
   \<and> pixel (mScreenImage (snd (doRedraw blockCursor
         (setDirty (scenarioScreen False 7 (\<lambda>p. 0)) \<lparr>x1 = 0, y1 = 0, x2 = 100, y2 = 100\<rparr>)))) (60, 20)
       = Qt_black"
proof -
  let ?d = "setDirty (scenarioScreen False 7 (\<lambda>p. 0)) \<lparr>x1 = 0, y1 = 0, x2 = 100, y2 = 100\<rparr>"
  have g: "mGeometry ?d = \<lparr>x1 = 0, y1 = 0, x2 = 100, y2 = 100\<rparr>"
    by (simp add: setDirty_other scenarioScreen_def)
  have h1: "rect_proper (mGeometry ?d)"
    by (simp add: g rect_proper_def)
  have h2: "storesFit ?d"
    by (simp add: storesFit_def storeFits_def setDirty_other scenarioScreen_def solidImage_def
        QRect_width_def QRect_height_def)
  have h3: "mCursor ?d = None"
    by (simp add: setDirty_other scenarioScreen_def)
  have h4: "(20, 20) \<in> region_points (mRepaintRegion ?d)"
    by (simp add: scenario_damaged region_points_def rect_points_def QRect_contains_def)
  have h5: "QRect_contains
      (QRect_translated (mGeometry ?d) (QPoint_neg (QRect_topLeft (mGeometry ?d)))) 20 20"
    by (simp add: g QRect_translated_def QRect_translated_xy_def QPoint_neg_def
        QRect_topLeft_def QRect_contains_def)
  have h6: "inImage (mScreenImage ?d) 20 20"
    by (simp add: setDirty_other scenarioScreen_def inImage_def)
  note a = doRedraw_composites_damage[where s = ?d and x = 20 and y = 20 and cur = blockCursor
      and alpha = False and C = 7 and old = "\<lambda>p. 0"]
  note b = doRedraw_composites_damage[where s = ?d and x = 60 and y = 20 and cur = blockCursor
      and alpha = False and C = 7 and old = "\<lambda>p. 0"]
  have "mPainter (paintDamage ?d) = Some \<lparr>compositionMode = CompositionMode_Source\<rparr>"
    using a[THEN conjunct2, THEN conjunct1] h1 h4 h5 by blast
  moreover have "pixel (mScreenImage (snd (doRedraw blockCursor ?d))) (20, 20) = 7"
    using a[THEN conjunct2, THEN conjunct2, THEN conjunct2, THEN conjunct2] by simp
  moreover have "mScreenImage (snd (doRedraw blockCursor ?d)) = mScreenImage (paintDamage ?d)"
    using a[THEN conjunct2, THEN conjunct2, THEN conjunct2, THEN conjunct1] h3 by simp
  moreover have "pixel (mScreenImage (snd (doRedraw blockCursor ?d))) (60, 20) = Qt_black"
    using b[THEN conjunct2, THEN conjunct2, THEN conjunct2, THEN conjunct2] by simp
  moreover have "compositedColor ?d (QRect_topLeft (mGeometry ?d))
        (backgroundColor (mScreenImage ?d)) (mWindowStack ?d) 20 20
      = pixel (mScreenImage (paintDamage ?d)) (20, 20)"
    using a[THEN conjunct1] a[THEN conjunct2, THEN conjunct2, THEN conjunct1] h1 h2 h4 h5 h6
    by simp
  ultimately show ?thesis using h1 h2 h3 h4 by simp
qed

text \<open>
  The loop of lines 187 to 199 has no test on the window's geometry. On the screen
  with the window from \<open>(10, 10)\<close> to \<open>(20, 20)\<close> and its 41 by 41 backing store, a
  redraw of the damage from \<open>(25, 25)\<close> to \<open>(35, 35)\<close>, which the window's geometry
  does not intersect, paints the store's colour at \<open>(30, 30)\<close>, where the background
  would be black.
\<close>

theorem oversized_store_counterexample:
  "isVisible (qWindows oversizedScreen (window (fbWindows oversizedScreen 1)))
   \<and> mWindowStack oversizedScreen = [1]
   \<and> QRect_isEmpty (QRect_intersected (geometry (fbWindows oversizedScreen 1))
                       \<lparr>x1 = 25, y1 = 25, x2 = 35, y2 = 35\<rparr>)
   \<and> mRepaintRegion (setDirty oversizedScreen \<lparr>x1 = 25, y1 = 25, x2 = 35, y2 = 35\<rparr>)
       = [\<lparr>x1 = 25, y1 = 25, x2 = 35, y2 = 35\<rparr>]
   \<and> pixel (mScreenImage (snd (doRedraw blockCursor
         (setDirty oversizedScreen \<lparr>x1 = 25, y1 = 25, x2 = 35, y2 = 35\<rparr>)))) (30, 30) = 7
   \<and> backgroundColor (mScreenImage oversizedScreen) = Qt_black
   \<and> Qt_black \<noteq> 7"
proof -
  let ?s = "oversizedScreen"
  let ?d = "setDirty ?s \<lparr>x1 = 25, y1 = 25, x2 = 35, y2 = 35\<rparr>"
  have v: "isVisible (qWindows ?s (window (fbWindows ?s 1)))" "mWindowStack ?s = [1]"
    by (simp_all add: oversizedScreen_def scenarioScreen_def)
  have ne: "QRect_isEmpty (QRect_intersected (geometry (fbWindows ?s 1))
                       \<lparr>x1 = 25, y1 = 25, x2 = 35, y2 = 35\<rparr>)"
    by (simp add: oversizedScreen_def QRect_intersected_def QRect_isNull_def QRect_null_def
        QRect_isEmpty_def)
  have rg: "mRepaintRegion ?d = [\<lparr>x1 = 25, y1 = 25, x2 = 35, y2 = 35\<rparr>]"
    by (simp add: setDirty_def scheduleUpdate_def Let_def oversizedScreen_def scenarioScreen_def
        QRect_intersected_def QRect_isNull_def QRect_translated_def QRect_translated_xy_def
        QPoint_neg_def QRect_topLeft_def QRegion_united_rect_def QRegion_empty_def
        QRect_isEmpty_def)
  have g: "mGeometry ?d = \<lparr>x1 = 0, y1 = 0, x2 = 100, y2 = 100\<rparr>"
    by (simp add: setDirty_other oversizedScreen_def scenarioScreen_def)
  have gp: "rect_proper (mGeometry ?d)" by (simp add: g rect_proper_def)
  have nc: "mCursor ?d = None"
    by (simp add: setDirty_other oversizedScreen_def scenarioScreen_def)
  have inR: "(30, 30) \<in> region_points (mRepaintRegion ?d)"
    by (simp add: rg region_points_def rect_points_def QRect_contains_def)
  have inS: "QRect_contains
      (QRect_translated (mGeometry ?d) (QPoint_neg (QRect_topLeft (mGeometry ?d)))) 30 30"
    by (simp add: g QRect_translated_def QRect_translated_xy_def QPoint_neg_def
        QRect_topLeft_def QRect_contains_def)
  have inI: "inImage (mScreenImage ?d) 30 30"
    by (simp add: setDirty_other oversizedScreen_def scenarioScreen_def inImage_def)
  have "layerPixel ?d (QRect_topLeft (mGeometry ?d)) (mWindowStack ?d) 30 30
        = layerPixel ?s (QRect_topLeft (mGeometry ?d)) (mWindowStack ?d) 30 30"
    by (rule layerPixel_cong) (simp_all add: setDirty_other)
  also have "\<dots> = Some 7"
    unfolding g
    by (simp add: setDirty_other oversizedScreen_def scenarioScreen_def solidImage_def Let_def
        QRect_translated_def QRect_translated_xy_def QPoint_neg_def QRect_topLeft_def
        inImage_def)
  finally have lp: "layerPixel ?d (QRect_topLeft (mGeometry ?d)) (mWindowStack ?d) 30 30
        = Some 7" .
  have "pixel (mScreenImage (snd (doRedraw blockCursor ?d))) (30, 30)
        = pixel (mScreenImage (paintDamage ?d)) (30, 30)"
    by (simp add: doRedraw_no_cursor_image[OF nc])
  also have "\<dots> = 7"
    using inR inS inI by (simp add: paintDamage_pixel[OF gp] lp)
  finally have px: "pixel (mScreenImage (snd (doRedraw blockCursor ?d))) (30, 30) = 7" .
  have bg: "backgroundColor (mScreenImage ?s) = Qt_black"
    by (simp add: oversizedScreen_def scenarioScreen_def backgroundColor_def)
  have "Qt_black \<noteq> (7 :: QRgb)" by (simp add: Qt_black_def)
  with v ne rg px bg show ?thesis by simp
qed

subsection \<open>The cursor in the redraw\<close>

lemma cursorDamage_other:
  "mGeometry (cursorDamage cur s) = mGeometry s \<and> mScreenImage (cursorDamage cur s) = mScreenImage s
   \<and> mWindowStack (cursorDamage cur s) = mWindowStack s
   \<and> fbWindows (cursorDamage cur s) = fbWindows s \<and> qWindows (cursorDamage cur s) = qWindows s
   \<and> backingStores (cursorDamage cur s) = backingStores s
   \<and> mPainter (cursorDamage cur s) = mPainter s
   \<and> mUpdatePending (cursorDamage cur s) = mUpdatePending s
   \<and> postedEvents (cursorDamage cur s) = postedEvents s"
  by (simp add: cursorDamage_def split: option.splits prod.splits)

lemma storesFit_cong:
  "fbWindows a = fbWindows b \<Longrightarrow> backingStores a = backingStores b
   \<Longrightarrow> mWindowStack a = mWindowStack b \<Longrightarrow> storesFit a = storesFit b"
  by (auto simp: storesFit_def storeFits_def list_all_iff split: option.splits)

lemma cursorDamage_dirty:
  assumes "mCursor s = Some c" "isDirty cur c" "isOnScreen cur c"
  shows "mRepaintRegion (cursorDamage cur s)
         = QRegion_united_rect (mRepaintRegion s) (fst (dirtyRect cur c))"
  using assms by (simp add: cursorDamage_def split: prod.splits)

lemma redrawIdle_not_wanted: "redrawIdle cur s \<Longrightarrow> \<not> cursorWanted cur s"
  by (auto simp: redrawIdle_def cursorWanted_def QRegion_isEmpty_def QRegion_intersects_def
      list_all_iff list_ex_iff split: option.splits)

text \<open>
  C5. When \<^verbatim>\<open>doRedraw\<close> starts with a cursor that is dirty and on the screen, the
  rectangle \<^verbatim>\<open>dirtyRect()\<close> returns, where the cursor was painted last, is united
  into the damage region as it is, in the region's screen-local coordinates, before
  the damage is painted: the painting runs on the region with the rectangle added,
  the returned region holds the rectangle, and every pixel of the rectangle on the
  screen is painted afresh from the windows and the background.
\<close>

theorem doRedraw_repaints_vacated_cursor:
  "mCursor s = Some c \<and> isDirty cur c \<and> isOnScreen cur c \<longrightarrow>
     mRepaintRegion (cursorDamage cur s)
       = QRegion_united_rect (mRepaintRegion s) (fst (dirtyRect cur c))
     \<and> region_points (mRepaintRegion (cursorDamage cur s))
       = region_points (mRepaintRegion s) \<union> rect_points (fst (dirtyRect cur c))
     \<and> rect_points (fst (dirtyRect cur c)) \<subseteq> region_points (fst (doRedraw cur s))
     \<and> (\<not> QRect_isEmpty (fst (dirtyRect cur c)) \<longrightarrow>
          snd (doRedraw cur s)
          = (snd (paintCursor cur (paintDamage (cursorDamage cur s))))
              \<lparr>mRepaintRegion := QRegion_empty\<rparr>)
     \<and> (rect_proper (mGeometry s) \<and> storesFit s
          \<and> (x, y) \<in> rect_points (fst (dirtyRect cur c))
          \<and> QRect_contains
               (QRect_translated (mGeometry s) (QPoint_neg (QRect_topLeft (mGeometry s)))) x y
          \<and> inImage (mScreenImage s) x y \<longrightarrow>
          pixel (mScreenImage (paintDamage (cursorDamage cur s))) (x, y)
          = compositedColor s (QRect_topLeft (mGeometry s)) (backgroundColor (mScreenImage s))
              (mWindowStack s) x y)"
proof (intro impI)
  assume h: "mCursor s = Some c \<and> isDirty cur c \<and> isOnScreen cur c"
  let ?r = "fst (dirtyRect cur c)"
  let ?s1 = "cursorDamage cur s"
  have a: "mRepaintRegion ?s1 = QRegion_united_rect (mRepaintRegion s) ?r"
    using h by (simp add: cursorDamage_dirty)
  have b: "region_points (mRepaintRegion ?s1) = region_points (mRepaintRegion s) \<union> rect_points ?r"
    by (simp add: a region_points_united_rect)
  have c: "rect_points ?r \<subseteq> region_points (fst (doRedraw cur s))"
    using doRedraw_touched[of cur s] b by blast
  have d: "snd (doRedraw cur s)
          = (snd (paintCursor cur (paintDamage ?s1)))\<lparr>mRepaintRegion := QRegion_empty\<rparr>"
    if "\<not> QRect_isEmpty ?r"
  proof -
    from that have "rect_points ?r \<noteq> {}" by (simp add: rect_points_empty_iff)
    with b have "\<not> redrawIdle cur ?s1" by (auto simp: redrawIdle_def region_isEmpty_points)
    then show ?thesis by (simp add: doRedraw_cases)
  qed
  have e: "pixel (mScreenImage (paintDamage ?s1)) (x, y)
          = compositedColor s (QRect_topLeft (mGeometry s)) (backgroundColor (mScreenImage s))
              (mWindowStack s) x y"
    if p: "rect_proper (mGeometry s)" "storesFit s" "(x, y) \<in> rect_points ?r"
      "QRect_contains
         (QRect_translated (mGeometry s) (QPoint_neg (QRect_topLeft (mGeometry s)))) x y"
      "inImage (mScreenImage s) x y"
  proof -
    have p1: "rect_proper (mGeometry ?s1)" using p(1) by (simp add: cursorDamage_other)
    have p2: "storesFit ?s1"
      using p(2) storesFit_cong[of ?s1 s] by (simp add: cursorDamage_other)
    have inR: "(x, y) \<in> region_points (mRepaintRegion ?s1)" using p(3) b by blast
    have "pixel (mScreenImage (paintDamage ?s1)) (x, y)
        = compositedColor ?s1 (QRect_topLeft (mGeometry s)) (backgroundColor (mScreenImage s))
              (mWindowStack s) x y"
      using inR p(4,5) by (simp add: paintDamage_composited[OF p1 p2] cursorDamage_other)
    also have "\<dots> = compositedColor s (QRect_topLeft (mGeometry s))
              (backgroundColor (mScreenImage s)) (mWindowStack s) x y"
      by (rule compositedColor_cong) (simp_all add: cursorDamage_other)
    finally show ?thesis .
  qed
  from a b c d e show "mRepaintRegion (cursorDamage cur s)
       = QRegion_united_rect (mRepaintRegion s) (fst (dirtyRect cur c))
     \<and> region_points (mRepaintRegion (cursorDamage cur s))
       = region_points (mRepaintRegion s) \<union> rect_points (fst (dirtyRect cur c))
     \<and> rect_points (fst (dirtyRect cur c)) \<subseteq> region_points (fst (doRedraw cur s))
     \<and> (\<not> QRect_isEmpty (fst (dirtyRect cur c)) \<longrightarrow>
          snd (doRedraw cur s)
          = (snd (paintCursor cur (paintDamage (cursorDamage cur s))))
              \<lparr>mRepaintRegion := QRegion_empty\<rparr>)
     \<and> (rect_proper (mGeometry s) \<and> storesFit s
          \<and> (x, y) \<in> rect_points (fst (dirtyRect cur c))
          \<and> QRect_contains
               (QRect_translated (mGeometry s) (QPoint_neg (QRect_topLeft (mGeometry s)))) x y
          \<and> inImage (mScreenImage s) x y \<longrightarrow>
          pixel (mScreenImage (paintDamage (cursorDamage cur s))) (x, y)
          = compositedColor s (QRect_topLeft (mGeometry s)) (backgroundColor (mScreenImage s))
              (mWindowStack s) x y)"
    by blast
qed

theorem doRedraw_repaints_vacated_cursor_witness:
  "mCursor (cursorScreen dirtyCursor) = Some dirtyCursor
   \<and> isDirty blockCursor dirtyCursor \<and> isOnScreen blockCursor dirtyCursor
   \<and> fst (dirtyRect blockCursor dirtyCursor) = \<lparr>x1 = 20, y1 = 20, x2 = 23, y2 = 23\<rparr>
   \<and> rect_proper (mGeometry (cursorScreen dirtyCursor)) \<and> storesFit (cursorScreen dirtyCursor)
   \<and> mRepaintRegion (cursorDamage blockCursor (cursorScreen dirtyCursor))
       = [\<lparr>x1 = 20, y1 = 20, x2 = 23, y2 = 23\<rparr>]
   \<and> (21, 22) \<in> region_points (fst (doRedraw blockCursor (cursorScreen dirtyCursor)))
   \<and> pixel (mScreenImage (paintDamage (cursorDamage blockCursor (cursorScreen dirtyCursor))))
        (21, 22) = 7"
proof -
  let ?s = "cursorScreen dirtyCursor"
  have h: "mCursor ?s = Some dirtyCursor \<and> isDirty blockCursor dirtyCursor
      \<and> isOnScreen blockCursor dirtyCursor"
    by (simp add: cursorScreen_def blockCursor_def dirtyCursor_def)
  have r: "fst (dirtyRect blockCursor dirtyCursor) = \<lparr>x1 = 20, y1 = 20, x2 = 23, y2 = 23\<rparr>"
    by (simp add: blockCursor_def dirtyCursor_def)
  have g: "rect_proper (mGeometry ?s)" "storesFit ?s"
    by (simp_all add: cursorScreen_def scenarioScreen_def rect_proper_def storesFit_def
        storeFits_def solidImage_def QRect_width_def QRect_height_def)
  have q: "(21, 22) \<in> rect_points (fst (dirtyRect blockCursor dirtyCursor))"
    "QRect_contains
       (QRect_translated (mGeometry ?s) (QPoint_neg (QRect_topLeft (mGeometry ?s)))) 21 22"
    "inImage (mScreenImage ?s) 21 22"
    by (simp_all add: r rect_points_def QRect_contains_def cursorScreen_def scenarioScreen_def
        QRect_translated_def QRect_translated_xy_def QPoint_neg_def QRect_topLeft_def inImage_def)
  have cc: "compositedColor ?s (QRect_topLeft (mGeometry ?s)) (backgroundColor (mScreenImage ?s))
              (mWindowStack ?s) 21 22 = 7"
    by (simp add: cursorScreen_def scenarioScreen_def solidImage_def Let_def
         QRect_translated_def QRect_translated_xy_def QPoint_neg_def QRect_topLeft_def
         QRect_contains_def)
  note t = doRedraw_repaints_vacated_cursor[where s = ?s and c = dirtyCursor
      and cur = blockCursor and x = 21 and y = 22]
  from t h g q have
    "mRepaintRegion (cursorDamage blockCursor ?s)
       = QRegion_united_rect (mRepaintRegion ?s) (fst (dirtyRect blockCursor dirtyCursor))"
    "rect_points (fst (dirtyRect blockCursor dirtyCursor))
       \<subseteq> region_points (fst (doRedraw blockCursor ?s))"
    "pixel (mScreenImage (paintDamage (cursorDamage blockCursor ?s))) (21, 22)
       = compositedColor ?s (QRect_topLeft (mGeometry ?s)) (backgroundColor (mScreenImage ?s))
              (mWindowStack ?s) 21 22"
    by blast+
  moreover have "QRegion_united_rect (mRepaintRegion ?s) \<lparr>x1 = 20, y1 = 20, x2 = 23, y2 = 23\<rparr>
      = [\<lparr>x1 = 20, y1 = 20, x2 = 23, y2 = 23\<rparr>]"
    by (simp add: cursorScreen_def scenarioScreen_def QRegion_united_rect_def QRegion_empty_def
        QRect_isEmpty_def)
  ultimately show ?thesis using h r g q(1) cc by auto
qed


lemma painter_SourceOver:
  "setCompositionMode p CompositionMode_SourceOver
   = \<lparr>compositionMode = CompositionMode_SourceOver\<rparr>"
  by (cases p) (simp add: setCompositionMode_def)

lemma paintCursor_wanted:
  assumes "mCursor s = Some c" "cursorWanted cur s"
  shows "mCursor (snd (paintCursor cur s))
           = Some (fst (snd (drawCursor cur c \<lparr>compositionMode = CompositionMode_SourceOver\<rparr>
                               (mScreenImage s))))
         \<and> mScreenImage (snd (paintCursor cur s))
           = snd (snd (drawCursor cur c \<lparr>compositionMode = CompositionMode_SourceOver\<rparr>
                               (mScreenImage s)))
         \<and> mPainter (snd (paintCursor cur s))
           = Some \<lparr>compositionMode = CompositionMode_SourceOver\<rparr>
         \<and> region_points (fst (paintCursor cur s))
           = rect_points (fst (drawCursor cur c \<lparr>compositionMode = CompositionMode_SourceOver\<rparr>
                               (mScreenImage s)))"
  using assms
  by (simp add: paintCursor_def cursorWanted_def Let_def painter_SourceOver case_prod_beta
      region_points_united_rect)

lemma paintCursor_not_wanted:
  "\<not> cursorWanted cur s \<Longrightarrow> paintCursor cur s = (QRegion_empty, s)"
  by (cases "mCursor s") (auto simp: paintCursor_def cursorWanted_def)

lemma cursorWanted_paintDamage: "cursorWanted cur (paintDamage s) = cursorWanted cur s"
  by (cases "mCursor s") (simp_all add: cursorWanted_def paintDamage_other)

lemma region_intersects_point:
  assumes "q \<in> set rg" "(x, y) \<in> rect_points q" "(x, y) \<in> rect_points r"
  shows "QRegion_intersects rg r"
proof -
  have ne: "\<not> QRect_isEmpty q" "\<not> QRect_isEmpty r"
    using assms(2,3) rect_points_empty_iff by blast+
  then have "rect_proper q" "rect_proper r"
    by (auto simp: QRect_isEmpty_def rect_proper_def)
  then have "QRect_contains (QRect_intersected q r) x y"
    using assms(2,3) by (simp add: contains_intersected rect_points_def)
  then have "\<not> QRect_isEmpty (QRect_intersected q r)"
    by (auto simp: QRect_contains_def QRect_isEmpty_def)
  with ne(1) assms(1) show ?thesis
    by (auto simp: QRegion_intersects_def list_ex_iff)
qed

lemma white_over: "composite m 0xFFFFFFFF dst = 0xFFFFFFFF"
  by (cases m)
     (simp_all add: composite_def source_over_def overChannel_def qChannel_def qAlpha_def)

lemma blockCursor_draw_pixel:
  "inImage img x y \<Longrightarrow> QRect_contains (bcCurrentRect c) x y
   \<Longrightarrow> pixel (snd (snd (drawCursor blockCursor c p img))) (x, y) = 0xFFFFFFFF"
  by (simp add: blockCursor_def fillRect_def white_over)

lemma paintDamage_dims:
  "imgWidth (mScreenImage (paintDamage s)) = imgWidth (mScreenImage s)
   \<and> imgHeight (mScreenImage (paintDamage s)) = imgHeight (mScreenImage s)
   \<and> hasAlphaChannel (mScreenImage (paintDamage s)) = hasAlphaChannel (mScreenImage s)"
  by (simp add: paintDamage_def Let_def paintRects_dims)

text \<open>
  C6. With the damage of line 171 added and the damaged rectangles painted,
  \<^verbatim>\<open>doRedraw\<close> composites the cursor exactly when there is a cursor and it is
  dirty or the damage region intersects the rectangle it was last painted in. When
  it does, \<^verbatim>\<open>drawCursor\<close> is run with a source-over painter on the image with the
  damage painted, the screen keeps the cursor and the image that come back, and the
  returned region is the damage with the rectangle \<^verbatim>\<open>drawCursor\<close> returned. When
  it does not, the cursor is left alone, the image is the one with the damage
  painted, and the returned region is the damage. A cursor that is not dirty is
  composited after a \<^verbatim>\<open>setDirty\<close> whose rectangle, clipped to the screen, shares a
  pixel with the cursor's last painted rectangle.
\<close>

theorem doRedraw_composites_cursor:
  "(cursorWanted cur (cursorDamage cur s) \<longrightarrow>
      (\<exists>c. mCursor (cursorDamage cur s) = Some c
         \<and> mCursor (snd (doRedraw cur s))
             = Some (fst (snd (drawCursor cur c \<lparr>compositionMode = CompositionMode_SourceOver\<rparr>
                                 (mScreenImage (paintDamage (cursorDamage cur s))))))
         \<and> mScreenImage (snd (doRedraw cur s))
             = snd (snd (drawCursor cur c \<lparr>compositionMode = CompositionMode_SourceOver\<rparr>
                                 (mScreenImage (paintDamage (cursorDamage cur s)))))
         \<and> region_points (fst (doRedraw cur s))
             = rect_points (fst (drawCursor cur c \<lparr>compositionMode = CompositionMode_SourceOver\<rparr>
                                 (mScreenImage (paintDamage (cursorDamage cur s)))))
               \<union> region_points (mRepaintRegion (cursorDamage cur s))))
   \<and> (\<not> cursorWanted cur (cursorDamage cur s) \<longrightarrow>
        mCursor (snd (doRedraw cur s)) = mCursor (cursorDamage cur s)
        \<and> mScreenImage (snd (doRedraw cur s)) = mScreenImage (paintDamage (cursorDamage cur s))
        \<and> region_points (fst (doRedraw cur s))
            = region_points (mRepaintRegion (cursorDamage cur s)))
   \<and> (mCursor s = Some k \<and> \<not> isDirty cur k
        \<and> (x, y) \<in> rect_points (QRect_translated (QRect_intersected r (mGeometry s))
                                  (QPoint_neg (QRect_topLeft (mGeometry s))))
        \<and> (x, y) \<in> rect_points (lastPainted cur k) \<longrightarrow>
        cursorWanted cur (cursorDamage cur (setDirty s r)))"
proof -
  let ?s1 = "cursorDamage cur s"
  let ?s2 = "paintDamage ?s1"
  have A: "\<exists>c. mCursor ?s1 = Some c
         \<and> mCursor (snd (doRedraw cur s))
             = Some (fst (snd (drawCursor cur c \<lparr>compositionMode = CompositionMode_SourceOver\<rparr>
                                 (mScreenImage ?s2))))
         \<and> mScreenImage (snd (doRedraw cur s))
             = snd (snd (drawCursor cur c \<lparr>compositionMode = CompositionMode_SourceOver\<rparr>
                                 (mScreenImage ?s2)))
         \<and> region_points (fst (doRedraw cur s))
             = rect_points (fst (drawCursor cur c \<lparr>compositionMode = CompositionMode_SourceOver\<rparr>
                                 (mScreenImage ?s2)))
               \<union> region_points (mRepaintRegion ?s1)"
    if w: "cursorWanted cur ?s1"
  proof -
    from w obtain c where c: "mCursor ?s1 = Some c"
      by (auto simp: cursorWanted_def split: option.splits)
    have ni: "\<not> redrawIdle cur ?s1" using w redrawIdle_not_wanted by blast
    have c2: "mCursor ?s2 = Some c" "cursorWanted cur ?s2"
      using c w by (simp_all add: paintDamage_other cursorWanted_paintDamage)
    note pc = paintCursor_wanted[OF c2]
    show ?thesis
      using c pc ni by (auto simp: doRedraw_cases region_points_united)
  qed
  have B: "mCursor (snd (doRedraw cur s)) = mCursor ?s1
        \<and> mScreenImage (snd (doRedraw cur s)) = mScreenImage ?s2
        \<and> region_points (fst (doRedraw cur s)) = region_points (mRepaintRegion ?s1)"
    if nw: "\<not> cursorWanted cur ?s1"
  proof (cases "redrawIdle cur ?s1")
    case True
    then have e: "QRegion_isEmpty (mRepaintRegion ?s1)" by (simp add: redrawIdle_def)
    then have "region_points (mRepaintRegion ?s1) = {}" by (simp add: region_isEmpty_points)
    with True e show ?thesis
      by (simp add: doRedraw_cases paintDamage_idle)
  next
    case False
    have "paintCursor cur ?s2 = (QRegion_empty, ?s2)"
      using nw by (simp add: paintCursor_not_wanted cursorWanted_paintDamage)
    with False show ?thesis
      by (simp add: doRedraw_cases region_points_united paintDamage_other)
  qed
  have C: "cursorWanted cur (cursorDamage cur (setDirty s r))"
    if h: "mCursor s = Some k" "\<not> isDirty cur k"
      "(x, y) \<in> rect_points (QRect_translated (QRect_intersected r (mGeometry s))
                                  (QPoint_neg (QRect_topLeft (mGeometry s))))"
      "(x, y) \<in> rect_points (lastPainted cur k)"
  proof -
    let ?t = "QRect_translated (QRect_intersected r (mGeometry s))
                (QPoint_neg (QRect_topLeft (mGeometry s)))"
    let ?d = "setDirty s r"
    have cd: "cursorDamage cur ?d = ?d"
      using h(1,2) by (intro cursorDamage_clean) (simp add: setDirty_other)
    have "\<not> QRect_isEmpty ?t" using h(3) rect_points_empty_iff by blast
    then have "?t \<in> set (mRepaintRegion ?d)"
      by (simp add: setDirty_def scheduleUpdate_def Let_def QRegion_united_rect_def)
    then have "QRegion_intersects (mRepaintRegion ?d) (lastPainted cur k)"
      using h(3,4) by (rule region_intersects_point)
    then show ?thesis
      using h(1) by (simp add: cd cursorWanted_def setDirty_other)
  qed
  from A B C show ?thesis by blast
qed

theorem doRedraw_composites_cursor_witness:
  "mCursor (cursorScreen idleCursor) = Some idleCursor
   \<and> \<not> isDirty blockCursor idleCursor
   \<and> (22, 22) \<in> rect_points (QRect_translated
         (QRect_intersected \<lparr>x1 = 22, y1 = 22, x2 = 40, y2 = 40\<rparr> (mGeometry (cursorScreen idleCursor)))
         (QPoint_neg (QRect_topLeft (mGeometry (cursorScreen idleCursor)))))
   \<and> (22, 22) \<in> rect_points (lastPainted blockCursor idleCursor)
   \<and> cursorWanted blockCursor (cursorDamage blockCursor
         (setDirty (cursorScreen idleCursor) \<lparr>x1 = 22, y1 = 22, x2 = 40, y2 = 40\<rparr>))
   \<and> \<not> cursorWanted blockCursor (cursorDamage blockCursor (cursorScreen idleCursor))
   \<and> mCursor (snd (doRedraw blockCursor (cursorScreen idleCursor))) = Some idleCursor
   \<and> pixel (mScreenImage (snd (doRedraw blockCursor
         (setDirty (cursorScreen idleCursor) \<lparr>x1 = 22, y1 = 22, x2 = 40, y2 = 40\<rparr>)))) (21, 21)
       = 0xFFFFFFFF"
proof -
  let ?s = "cursorScreen idleCursor"
  let ?r = "\<lparr>x1 = 22, y1 = 22, x2 = 40, y2 = 40\<rparr>"
  let ?d = "setDirty ?s ?r"
  have h: "mCursor ?s = Some idleCursor" "\<not> isDirty blockCursor idleCursor"
    by (simp_all add: cursorScreen_def blockCursor_def idleCursor_def)
  have q: "(22, 22) \<in> rect_points (QRect_translated (QRect_intersected ?r (mGeometry ?s))
         (QPoint_neg (QRect_topLeft (mGeometry ?s))))"
    "(22, 22) \<in> rect_points (lastPainted blockCursor idleCursor)"
    by (simp_all add: cursorScreen_def scenarioScreen_def blockCursor_def idleCursor_def
        rect_points_def QRect_contains_def QRect_intersected_def QRect_isNull_def
        QRect_translated_def QRect_translated_xy_def QPoint_neg_def QRect_topLeft_def)
  note t = doRedraw_composites_cursor[where cur = blockCursor and s = ?s and k = idleCursor
      and x = 22 and y = 22 and r = ?r]
  note u = doRedraw_composites_cursor[where cur = blockCursor and s = ?d and k = idleCursor
      and x = 22 and y = 22 and r = ?r]
  have w: "cursorWanted blockCursor (cursorDamage blockCursor ?d)"
    using t[THEN conjunct2, THEN conjunct2] h q by blast
  have cs: "cursorDamage blockCursor ?s = ?s"
    using h by (intro cursorDamage_clean) simp
  have nw: "\<not> cursorWanted blockCursor (cursorDamage blockCursor ?s)"
    unfolding cs
    by (simp add: cursorWanted_def cursorScreen_def scenarioScreen_def blockCursor_def
        idleCursor_def QRegion_intersects_def QRegion_empty_def)
  have k: "mCursor (snd (doRedraw blockCursor ?s)) = Some idleCursor"
    using t[THEN conjunct2, THEN conjunct1] nw cs h by simp
  have cd: "cursorDamage blockCursor ?d = ?d"
    using h by (intro cursorDamage_clean) (simp add: setDirty_other)
  from u[THEN conjunct1] w obtain c where
    c: "mCursor (cursorDamage blockCursor ?d) = Some c"
    and i: "mScreenImage (snd (doRedraw blockCursor ?d))
             = snd (snd (drawCursor blockCursor c \<lparr>compositionMode = CompositionMode_SourceOver\<rparr>
                                 (mScreenImage (paintDamage (cursorDamage blockCursor ?d)))))"
    by blast
  from c have ci: "c = idleCursor" using h by (simp add: cd setDirty_other)
  have "inImage (mScreenImage (paintDamage ?d)) 21 21"
    by (simp add: inImage_def paintDamage_dims setDirty_other cursorScreen_def
        scenarioScreen_def)
  then have "inImage (mScreenImage (paintDamage (cursorDamage blockCursor ?d))) 21 21"
    by (simp only: cd)
  moreover have "QRect_contains (bcCurrentRect idleCursor) 21 21"
    by (simp add: idleCursor_def QRect_contains_def)
  ultimately have "pixel (snd (snd (drawCursor blockCursor idleCursor
        \<lparr>compositionMode = CompositionMode_SourceOver\<rparr>
        (mScreenImage (paintDamage (cursorDamage blockCursor ?d)))))) (21, 21) = 0xFFFFFFFF"
    by (rule blockCursor_draw_pixel)
  then have "pixel (mScreenImage (snd (doRedraw blockCursor ?d))) (21, 21) = 0xFFFFFFFF"
    by (simp only: i ci)
  with h q w nw k show ?thesis by simp
qed


lemma doRedraw_leaves_cursor_clean:
  assumes "drawClearsDirty cur"
  shows "mCursor (snd (doRedraw cur s)) = None
         \<or> (\<exists>c. mCursor (snd (doRedraw cur s)) = Some c \<and> \<not> isDirty cur c)"
proof (cases "redrawIdle cur (cursorDamage cur s)")
  case True
  then show ?thesis
    by (auto simp: doRedraw_cases redrawIdle_def split: option.splits)
next
  case False
  let ?s2 = "paintDamage (cursorDamage cur s)"
  have r: "mCursor (snd (doRedraw cur s)) = mCursor (snd (paintCursor cur ?s2))"
    using False by (simp add: doRedraw_cases)
  show ?thesis
  proof (cases "cursorWanted cur ?s2")
    case True
    then obtain c where c: "mCursor ?s2 = Some c"
      by (auto simp: cursorWanted_def split: option.splits)
    from paintCursor_wanted[OF c True] assms show ?thesis
      unfolding r by (simp add: drawClearsDirty_def)
  next
    case nw: False
    then have "paintCursor cur ?s2 = (QRegion_empty, ?s2)" by (rule paintCursor_not_wanted)
    with nw show ?thesis
      unfolding r by (auto simp: cursorWanted_def split: option.splits)
  qed
qed

text \<open>
  C8. A redraw that follows a redraw with nothing in between returns the empty
  region and changes nothing, for every cursor that is not dirty once drawn, and
  whenever the cursor is absent or not dirty when the second redraw starts.
\<close>

theorem doRedraw_twice_empty:
  "doRedraw cur s = (touched, s1)
   \<and> (drawClearsDirty cur \<or> mCursor s1 = None \<or> (\<exists>c. mCursor s1 = Some c \<and> \<not> isDirty cur c))
   \<Longrightarrow> doRedraw cur s1 = (QRegion_empty, s1)"
proof -
  assume h: "doRedraw cur s = (touched, s1)
   \<and> (drawClearsDirty cur \<or> mCursor s1 = None \<or> (\<exists>c. mCursor s1 = Some c \<and> \<not> isDirty cur c))"
  then have s1: "s1 = snd (doRedraw cur s)" by simp
  then have e: "QRegion_isEmpty (mRepaintRegion s1)"
    by (simp add: region_isEmpty_points doRedraw_region_empty)
  have "mCursor s1 = None \<or> (\<exists>c. mCursor s1 = Some c \<and> \<not> isDirty cur c)"
    using h doRedraw_leaves_cursor_clean[of cur s] unfolding s1 by blast
  with e show ?thesis by (rule doRedraw_idle)
qed

lemma cursorScreen_dirty_redraw:
  "mCursor (snd (doRedraw blockCursor (cursorScreen dirtyCursor)))
     = Some \<lparr>bcDirty = False, bcOnScreen = True,
             bcCurrentRect = \<lparr>x1 = 30, y1 = 30, x2 = 33, y2 = 33\<rparr>,
             bcPrevRect = \<lparr>x1 = 30, y1 = 30, x2 = 33, y2 = 33\<rparr>\<rparr>
   \<and> fst (doRedraw blockCursor (cursorScreen dirtyCursor))
     = [\<lparr>x1 = 30, y1 = 30, x2 = 33, y2 = 33\<rparr>, \<lparr>x1 = 20, y1 = 20, x2 = 23, y2 = 23\<rparr>]"
  by (simp add: doRedraw_def cursorDamage_def paintCursor_def paintDamage_def Let_def
      cursorScreen_def scenarioScreen_def blockCursor_def dirtyCursor_def
      QRegion_united_rect_def QRegion_united_def QRegion_rects_def QRegion_empty_def
      QRegion_isEmpty_def QRect_isEmpty_def)

theorem doRedraw_twice_empty_witness:
  "drawClearsDirty blockCursor
   \<and> fst (doRedraw blockCursor (cursorScreen dirtyCursor)) \<noteq> QRegion_empty
   \<and> doRedraw blockCursor (snd (doRedraw blockCursor (cursorScreen dirtyCursor)))
     = (QRegion_empty, snd (doRedraw blockCursor (cursorScreen dirtyCursor)))"
proof -
  have d: "drawClearsDirty blockCursor"
    by (simp add: drawClearsDirty_def blockCursor_def)
  from doRedraw_twice_empty[of blockCursor "cursorScreen dirtyCursor"
      "fst (doRedraw blockCursor (cursorScreen dirtyCursor))"
      "snd (doRedraw blockCursor (cursorScreen dirtyCursor))"] d
  have "doRedraw blockCursor (snd (doRedraw blockCursor (cursorScreen dirtyCursor)))
     = (QRegion_empty, snd (doRedraw blockCursor (cursorScreen dirtyCursor)))"
    by simp
  with d cursorScreen_dirty_redraw show ?thesis by (simp add: QRegion_empty_def)
qed

subsection \<open>The coalesced update request\<close>

lemma attachPending_other:
  "mUpdatePending (attachPending i s fbw) = mUpdatePending s
   \<and> postedEvents (attachPending i s fbw) = postedEvents s
   \<and> mWindowStack (attachPending i s fbw) = mWindowStack s
   \<and> mGeometry (attachPending i s fbw) = mGeometry s
   \<and> backingStores (attachPending i s fbw) = backingStores s
   \<and> qWindows (attachPending i s fbw) = qWindows s"
proof (induction i s fbw rule: attachPending.induct)
  case (1 i s fbw)
  show ?case
  proof (cases "i < length (mPendingBackingStores s)")
    case False
    then show ?thesis by (subst (1 2 3 4 5 6) attachPending.simps) simp
  next
    case True
    show ?thesis
    proof (cases "bsWindow (backingStores s (mPendingBackingStores s ! i)) = window (fbWindows s fbw)")
      case m: True
      with True show ?thesis by (subst (1 2 3 4 5 6) attachPending.simps) (simp add: Let_def)
    next
      case m: False
      with True 1[OF True refl m] show ?thesis
        by (subst (1 2 3 4 5 6) attachPending.simps) (simp add: Let_def)
    qed
  qed
qed

lemma paintCursor_other:
  "mUpdatePending (snd (paintCursor cur s)) = mUpdatePending s
   \<and> postedEvents (snd (paintCursor cur s)) = postedEvents s
   \<and> mWindowStack (snd (paintCursor cur s)) = mWindowStack s"
  by (cases "mCursor s") (simp_all add: paintCursor_def Let_def case_prod_beta)

lemma doRedraw_other:
  "mUpdatePending (snd (doRedraw cur s)) = mUpdatePending s
   \<and> postedEvents (snd (doRedraw cur s)) = postedEvents s
   \<and> mWindowStack (snd (doRedraw cur s)) = mWindowStack s"
  by (simp add: doRedraw_cases paintCursor_other paintDamage_other cursorDamage_other)

lemma scheduleUpdate_queueOK: "queueOK s \<Longrightarrow> queueOK (scheduleUpdate s)"
  by (auto simp: queueOK_def pendingRequests_def scheduleUpdate_def)

lemma queueOK_cong:
  "mUpdatePending a = mUpdatePending b \<Longrightarrow> postedEvents a = postedEvents b
   \<Longrightarrow> queueOK a = queueOK b"
  by (simp add: queueOK_def pendingRequests_def)

lemma setDirty_queueOK: "queueOK s \<Longrightarrow> queueOK (setDirty s r)"
proof -
  assume q: "queueOK s"
  let ?s = "s\<lparr>mRepaintRegion := QRegion_united_rect (mRepaintRegion s)
       (QRect_translated (QRect_intersected r (mGeometry s)) (QPoint_neg (QRect_topLeft (mGeometry s))))\<rparr>"
  have "queueOK ?s = queueOK s" by (rule queueOK_cong) simp_all
  with q have "queueOK (scheduleUpdate ?s)" by (simp add: scheduleUpdate_queueOK)
  then show ?thesis by (simp add: setDirty_def Let_def)
qed

lemma announce_queueOK: "queueOK (announceTopWindow s) = queueOK s"
  by (rule queueOK_cong) (simp_all add: announceTopWindow_def Let_def)

lemma addWindow_queueOK:
  assumes "queueOK s" "addWindow s fbw = Inr s'"
  shows "queueOK s'"
proof -
  let ?s1 = "s\<lparr>mWindowStack := fbw # mWindowStack s\<rparr>"
  let ?s2 = "if mPendingBackingStores ?s1 \<noteq> [] then attachPending 0 ?s1 fbw else ?s1"
  have "queueOK ?s2 = queueOK s"
    by (rule queueOK_cong) (simp_all add: attachPending_other)
  with assms(1) have "queueOK (announceTopWindow (setDirty ?s2 (geometry (fbWindows ?s2 fbw))))"
    by (simp only: announce_queueOK setDirty_queueOK)
  moreover from assms(2) have
    "s' = announceTopWindow (setDirty ?s2 (geometry (fbWindows ?s2 fbw)))"
    by (simp add: addWindow_def Let_def split: if_splits)
  ultimately show ?thesis by simp
qed

lemma removeWindow_queueOK: "queueOK s \<Longrightarrow> queueOK (removeWindow s fbw)"
proof -
  assume q: "queueOK s"
  let ?s1 = "s\<lparr>mWindowStack := remove1 fbw (mWindowStack s)\<rparr>"
  have "queueOK ?s1 = queueOK s" by (rule queueOK_cong) simp_all
  with q show ?thesis
    by (simp add: removeWindow_def Let_def announce_queueOK setDirty_queueOK)
qed

lemma raise_queueOK: "queueOK s \<Longrightarrow> queueOK (raise s fbw)"
proof -
  assume q: "queueOK s"
  have "queueOK (s\<lparr>mWindowStack := ws\<rparr>)" for ws
    using q queueOK_cong[of "s\<lparr>mWindowStack := ws\<rparr>" s] by simp
  then show ?thesis
    using q by (simp add: raise_def Let_def announce_queueOK setDirty_queueOK)
qed

lemma lower_queueOK: "queueOK s \<Longrightarrow> queueOK (lower s fbw)"
proof -
  assume q: "queueOK s"
  have "queueOK (s\<lparr>mWindowStack := ws\<rparr>)" for ws
    using q queueOK_cong[of "s\<lparr>mWindowStack := ws\<rparr>" s] by simp
  then show ?thesis
    using q by (simp add: lower_def Let_def announce_queueOK setDirty_queueOK)
qed

lemma event_update:
  "\<not> mUpdatePending (snd (event cur s UpdateRequest))
   \<and> postedEvents (snd (event cur s UpdateRequest)) = postedEvents s"
  by (simp add: event_def case_prod_beta doRedraw_other)

lemma processEvent_queueOK: "queueOK s \<Longrightarrow> queueOK (processEvent cur s)"
proof (cases "postedEvents s")
  case Nil
  then show "queueOK s \<Longrightarrow> ?thesis" by (simp add: processEvent_def)
next
  case (Cons e es)
  assume q: "queueOK s"
  show ?thesis
  proof (cases e)
    case UpdateRequest
    with q Cons have "count_list es UpdateRequest = 0"
      by (simp add: queueOK_def pendingRequests_def split: if_splits)
    then show ?thesis
      using Cons UpdateRequest event_update[of cur "s\<lparr>postedEvents := es\<rparr>"]
      by (simp add: processEvent_def queueOK_def pendingRequests_def)
  next
    case (OtherEvent n)
    with q Cons show ?thesis
      by (simp add: processEvent_def event_def queueOK_def pendingRequests_def)
  qed
qed

lemma perform_queueOK: "queueOK s \<Longrightarrow> perform cur s c = Inr s' \<Longrightarrow> queueOK s'"
  by (cases c)
     (auto simp: perform_def addWindow_queueOK removeWindow_queueOK raise_queueOK lower_queueOK
       setDirty_queueOK scheduleUpdate_queueOK processEvent_queueOK)

lemma performAll_queueOK: "queueOK s \<Longrightarrow> performAll cur s cs = Inr s' \<Longrightarrow> queueOK s'"
proof (induction cs arbitrary: s)
  case Nil
  then show ?case by simp
next
  case (Cons c cs)
  then show ?case
    by (auto split: sum.splits dest: perform_queueOK)
qed

text \<open>
  C9. While an update is pending, \<^verbatim>\<open>scheduleUpdate\<close> changes nothing and
  \<^verbatim>\<open>setDirty\<close> posts nothing; when none is pending, \<^verbatim>\<open>scheduleUpdate\<close> sets the
  flag and posts one update request. Handling the update request runs the redraw and
  clears the flag, whatever region the redraw returns, and the next \<^verbatim>\<open>setDirty\<close>
  posts a new request. So over any sequence of calls and event-loop turns the flag is
  set exactly when one update request waits in the queue, and never more than one
  waits.
\<close>

theorem update_request_coalesced:
  "(mUpdatePending s \<longrightarrow>
      scheduleUpdate s = s \<and> postedEvents (setDirty s r) = postedEvents s
      \<and> mUpdatePending (setDirty s r))
   \<and> (\<not> mUpdatePending s \<longrightarrow>
        scheduleUpdate s
        = s\<lparr>mUpdatePending := True, postedEvents := postedEvents s @ [UpdateRequest]\<rparr>)
   \<and> \<not> mUpdatePending (snd (event cur s UpdateRequest))
   \<and> postedEvents (snd (event cur s UpdateRequest)) = postedEvents s
   \<and> postedEvents (setDirty (snd (event cur s UpdateRequest)) r)
       = postedEvents s @ [UpdateRequest]
   \<and> (queueOK s \<and> performAll cur s cs = Inr s' \<longrightarrow> queueOK s' \<and> pendingRequests s' \<le> 1)"
proof -
  have a: "scheduleUpdate s = s \<and> postedEvents (setDirty s r) = postedEvents s
      \<and> mUpdatePending (setDirty s r)" if "mUpdatePending s"
    using that by (simp add: scheduleUpdate_def setDirty_def Let_def)
  have b: "scheduleUpdate s
        = s\<lparr>mUpdatePending := True, postedEvents := postedEvents s @ [UpdateRequest]\<rparr>"
    if "\<not> mUpdatePending s"
    using that by (simp add: scheduleUpdate_def)
  note c = event_update[of cur s]
  have d: "postedEvents (setDirty (snd (event cur s UpdateRequest)) r)
       = postedEvents s @ [UpdateRequest]"
    using c by (simp add: setDirty_def scheduleUpdate_def Let_def)
  have e: "queueOK s' \<and> pendingRequests s' \<le> 1"
    if "queueOK s" "performAll cur s cs = Inr s'"
  proof -
    from that have "queueOK s'" by (rule performAll_queueOK)
    then show ?thesis by (simp add: queueOK_def split: if_splits)
  qed
  from a b c d e show ?thesis by blast
qed


theorem update_request_coalesced_witness:
  "\<not> mUpdatePending (scenarioScreen False 7 (\<lambda>p. 0))
   \<and> queueOK (scenarioScreen False 7 (\<lambda>p. 0))
   \<and> mUpdatePending (setDirty (scenarioScreen False 7 (\<lambda>p. 0)) (QRect_xywh 0 0 5 5))
   \<and> scheduleUpdate (setDirty (scenarioScreen False 7 (\<lambda>p. 0)) (QRect_xywh 0 0 5 5))
       = setDirty (scenarioScreen False 7 (\<lambda>p. 0)) (QRect_xywh 0 0 5 5)
   \<and> performAll blockCursor (scenarioScreen False 7 (\<lambda>p. 0))
         [SetDirty (QRect_xywh 0 0 5 5), ScheduleUpdate, SetDirty (QRect_xywh 0 0 5 5)]
       = Inr (setDirty (scheduleUpdate (setDirty (scenarioScreen False 7 (\<lambda>p. 0))
                (QRect_xywh 0 0 5 5))) (QRect_xywh 0 0 5 5))
   \<and> pendingRequests (setDirty (scheduleUpdate (setDirty (scenarioScreen False 7 (\<lambda>p. 0))
                (QRect_xywh 0 0 5 5))) (QRect_xywh 0 0 5 5)) \<le> 1
   \<and> postedEvents (scheduleUpdate (scenarioScreen False 7 (\<lambda>p. 0))) = [UpdateRequest]"
proof -
  let ?s = "scenarioScreen False 7 (\<lambda>p. 0)"
  let ?r = "QRect_xywh 0 0 5 5"
  let ?cs = "[SetDirty ?r, ScheduleUpdate, SetDirty ?r]"
  let ?e = "setDirty (scheduleUpdate (setDirty ?s ?r)) ?r"
  have np: "\<not> mUpdatePending ?s" by (simp add: scenarioScreen_def)
  have q: "queueOK ?s" by (simp add: queueOK_def pendingRequests_def scenarioScreen_def)
  have p: "mUpdatePending (setDirty ?s ?r)"
    by (simp add: setDirty_def scheduleUpdate_def Let_def)
  have run: "performAll blockCursor ?s ?cs = Inr ?e"
    by (simp add: perform_def)
  note t = update_request_coalesced[where s = ?s and r = ?r and cur = blockCursor
      and cs = ?cs and s' = ?e]
  note u = update_request_coalesced[where s = "setDirty ?s ?r" and r = ?r and cur = blockCursor
      and cs = "[]" and s' = "setDirty ?s ?r"]
  from u p have "scheduleUpdate (setDirty ?s ?r) = setDirty ?s ?r" by blast
  moreover from t q run have "pendingRequests ?e \<le> 1" by blast
  moreover from t np have "postedEvents (scheduleUpdate ?s) = [UpdateRequest]"
    by (simp add: scenarioScreen_def)
  ultimately show ?thesis using np q p run by blast
qed

subsection \<open>The window stack\<close>

lemma indexOf_ge: "- 1 \<le> indexOf xs v"
  by (induction xs) (auto simp: Let_def)

lemma indexOf_absent: "indexOf xs v = - 1 \<longleftrightarrow> v \<notin> set xs"
proof (induction xs)
  case Nil
  then show ?case by simp
next
  case (Cons x xs)
  then show ?case using indexOf_ge[of xs v] by (auto simp: Let_def)
qed

lemma indexOf_less: "indexOf xs v < int (length xs)"
  by (induction xs) (auto simp: Let_def)

lemma indexOf_last: "v \<notin> set xs \<Longrightarrow> indexOf (xs @ [v]) v = int (length xs)"
  by (induction xs) (auto simp: Let_def)

lemma length_move:
  "from < length xs \<Longrightarrow> length (move xs from to) = length xs"
proof -
  assume f: "from < length xs"
  have "length (move xs from to)
        = length (take to (removeAt xs from) @ drop to (removeAt xs from)) + 1"
    unfolding move_def Let_def by (simp only: length_append) simp
  also have "\<dots> = length (removeAt xs from) + 1" by (simp only: append_take_drop_id)
  also have "\<dots> = length xs" using f by (simp add: removeAt_def)
  finally show ?thesis .
qed

lemma setDirty_announce_stack:
  "mWindowStack (announceTopWindow (setDirty s r)) = mWindowStack s"
  by (simp add: announceTopWindow_def Let_def setDirty_other)

lemma raise_length: "length (mWindowStack (raise s fbw)) = length (mWindowStack s)"
proof (cases "indexOf (mWindowStack s) fbw \<le> 0")
  case True
  then show ?thesis by (simp add: raise_def)
next
  case False
  then have "nat (indexOf (mWindowStack s) fbw) < length (mWindowStack s)"
    using indexOf_less[of "mWindowStack s" fbw] by simp
  then show ?thesis
    using False by (simp add: raise_def Let_def setDirty_announce_stack length_move)
qed

lemma lower_length: "length (mWindowStack (lower s fbw)) = length (mWindowStack s)"
proof (cases "indexOf (mWindowStack s) fbw = - 1
    \<or> indexOf (mWindowStack s) fbw = int (length (mWindowStack s)) - 1")
  case True
  then show ?thesis by (simp add: lower_def)
next
  case False
  then have "0 \<le> indexOf (mWindowStack s) fbw"
    using indexOf_ge[of "mWindowStack s" fbw] by simp
  then have "nat (indexOf (mWindowStack s) fbw) < length (mWindowStack s)"
    using indexOf_less[of "mWindowStack s" fbw] by simp
  then show ?thesis
    using False by (simp add: lower_def Let_def setDirty_announce_stack length_move)
qed

lemma removeWindow_length:
  "length (mWindowStack (removeWindow s fbw)) + (if fbw \<in> set (mWindowStack s) then 1 else 0)
   = length (mWindowStack s)"
proof -
  have "mWindowStack (removeWindow s fbw) = remove1 fbw (mWindowStack s)"
    by (simp add: removeWindow_def Let_def setDirty_announce_stack)
  moreover have "fbw \<in> set (mWindowStack s) \<Longrightarrow> 0 < length (mWindowStack s)"
    by (cases "mWindowStack s") simp_all
  ultimately show ?thesis
    by (auto simp: length_remove1)
qed

lemma addWindow_length:
  "addWindow s fbw = Inr s' \<Longrightarrow> length (mWindowStack s') = Suc (length (mWindowStack s))"
  by (auto simp: addWindow_def Let_def setDirty_announce_stack attachPending_other
      split: if_splits)

lemma processEvent_stack: "mWindowStack (processEvent cur s) = mWindowStack s"
  by (cases "postedEvents s")
     (simp_all add: processEvent_def event_def case_prod_beta doRedraw_other)

lemma perform_length:
  "perform cur s c = Inr s' \<Longrightarrow>
   int (length (mWindowStack s'))
   = int (length (mWindowStack s)) + int (countAdds [c]) - int (countRemoves cur s [c])"
proof (cases c)
  case (AddWindow w)
  assume "perform cur s c = Inr s'"
  with AddWindow show ?thesis
    using addWindow_length[of s w s'] by (simp add: perform_def)
next
  case (RemoveWindow w)
  assume "perform cur s c = Inr s'"
  with RemoveWindow show ?thesis
    using removeWindow_length[of s w] by (auto simp: perform_def split: if_splits)
next
  case (Raise w)
  assume "perform cur s c = Inr s'"
  with Raise show ?thesis by (auto simp: perform_def raise_length)
next
  case (Lower w)
  assume "perform cur s c = Inr s'"
  with Lower show ?thesis by (auto simp: perform_def lower_length)
next
  case (SetDirty r)
  assume "perform cur s c = Inr s'"
  with SetDirty show ?thesis by (auto simp: perform_def setDirty_other)
next
  case ScheduleUpdate
  assume "perform cur s c = Inr s'"
  with ScheduleUpdate show ?thesis by (auto simp: perform_def scheduleUpdate_def)
next
  case ProcessEvent
  assume "perform cur s c = Inr s'"
  with ProcessEvent show ?thesis by (auto simp: perform_def processEvent_stack)
qed

lemma countAdds_Cons: "countAdds (c # cs) = countAdds [c] + countAdds cs"
  by (cases c) simp_all

lemma performAll_length:
  "performAll cur s cs = Inr s' \<Longrightarrow>
   int (length (mWindowStack s'))
   = int (length (mWindowStack s)) + int (countAdds cs) - int (countRemoves cur s cs)"
proof (induction cs arbitrary: s)
  case Nil
  then show ?case by simp
next
  case (Cons c cs)
  from Cons.prems obtain s1 where s1: "perform cur s c = Inr s1" "performAll cur s1 cs = Inr s'"
    by (auto split: sum.splits)
  note a = perform_length[OF s1(1)]
  note b = Cons.IH[OF s1(2)]
  have "countRemoves cur s (c # cs) = countRemoves cur s [c] + countRemoves cur s1 cs"
    using s1(1) by simp
  with a b countAdds_Cons[of c cs] show ?case by simp
qed

lemma raise_noop:
  "fbw \<notin> set (mWindowStack s) \<or> (\<exists>rest. mWindowStack s = fbw # rest) \<Longrightarrow> raise s fbw = s"
  using indexOf_absent[of "mWindowStack s" fbw] by (auto simp: raise_def)

lemma lower_noop:
  "fbw \<notin> set (mWindowStack s) \<or> (\<exists>rest. mWindowStack s = rest @ [fbw] \<and> fbw \<notin> set rest)
   \<Longrightarrow> lower s fbw = s"
  using indexOf_absent[of "mWindowStack s" fbw] by (auto simp: lower_def indexOf_last)

lemma stack_simps:
  "mWindowStack (announceTopWindow s) = mWindowStack s"
  "mWindowStack (setDirty s r) = mWindowStack s"
  "fbWindows (announceTopWindow s) = fbWindows s"
  "mPendingBackingStores (announceTopWindow s) = mPendingBackingStores s"
  by (simp_all add: announceTopWindow_def Let_def setDirty_other)

lemma addWindow_plain:
  "backingStore (fbWindows s fbw) \<noteq> None \<Longrightarrow> mPendingBackingStores s = [] \<Longrightarrow>
   \<exists>s'. addWindow s fbw = Inr s' \<and> mWindowStack s' = fbw # mWindowStack s
        \<and> fbWindows s' = fbWindows s \<and> mPendingBackingStores s' = []"
  by (simp add: addWindow_def Let_def stack_simps setDirty_other)

text \<open>
  C7, as the code has it. After a sequence of calls that runs to its end, the stack
  has grown by the number of \<^verbatim>\<open>addWindow\<close> calls less the number of
  \<^verbatim>\<open>removeWindow\<close> calls that found their window. \<^verbatim>\<open>raise\<close> changes nothing for
  a window that is not in the stack or is its first entry. \<^verbatim>\<open>lower\<close> changes
  nothing for a window that is not in the stack, or that is its last entry and occurs
  nowhere else in it.
\<close>

theorem stack_size_and_noops:
  "(performAll cur s cs = Inr s' \<longrightarrow>
      int (length (mWindowStack s'))
      = int (length (mWindowStack s)) + int (countAdds cs) - int (countRemoves cur s cs))
   \<and> (fbw \<notin> set (mWindowStack s) \<or> (\<exists>rest. mWindowStack s = fbw # rest)
        \<longrightarrow> raise s fbw = s)
   \<and> (fbw \<notin> set (mWindowStack s)
        \<or> (\<exists>rest. mWindowStack s = rest @ [fbw] \<and> fbw \<notin> set rest)
        \<longrightarrow> lower s fbw = s)"
  using performAll_length[of cur s cs s'] raise_noop[of fbw s] lower_noop[of fbw s]
  by blast

theorem stack_size_and_noops_witness:
  "(\<exists>s'. performAll blockCursor emptyScreen [AddWindow 1, RemoveWindow 1, RemoveWindow 1] = Inr s'
         \<and> countAdds [AddWindow 1, RemoveWindow 1, RemoveWindow 1] = 1
         \<and> countRemoves blockCursor emptyScreen [AddWindow 1, RemoveWindow 1, RemoveWindow 1] = 1
         \<and> int (length (mWindowStack s')) = 0)
   \<and> mWindowStack (scenarioScreen False 7 (\<lambda>p. 0)) = [1]
   \<and> raise (scenarioScreen False 7 (\<lambda>p. 0)) 1 = scenarioScreen False 7 (\<lambda>p. 0)
   \<and> lower (scenarioScreen False 7 (\<lambda>p. 0)) 1 = scenarioScreen False 7 (\<lambda>p. 0)
   \<and> lower (scenarioScreen False 7 (\<lambda>p. 0)) 3 = scenarioScreen False 7 (\<lambda>p. 0)"
proof -
  let ?cs = "[AddWindow 1, RemoveWindow 1, RemoveWindow 1]"
  let ?s = "scenarioScreen False 7 (\<lambda>p. 0)"
  have e: "mWindowStack emptyScreen = []" "mPendingBackingStores emptyScreen = []"
    "backingStore (fbWindows emptyScreen 1) \<noteq> None"
    by (simp_all add: emptyScreen_def scenarioScreen_def)
  obtain a where a: "addWindow emptyScreen 1 = Inr a" "mWindowStack a = [1]"
    using addWindow_plain[of emptyScreen 1] e by auto
  have r1: "mWindowStack (removeWindow a 1) = []"
    by (simp add: removeWindow_def Let_def stack_simps a)
  let ?e = "removeWindow (removeWindow a 1) 1"
  have run: "performAll blockCursor emptyScreen ?cs = Inr ?e"
    using a by (simp add: perform_def)
  have cr: "countRemoves blockCursor emptyScreen ?cs = 1"
    using a r1 by (simp add: perform_def)
  have st: "mWindowStack ?s = [1]" by (simp add: scenarioScreen_def)
  note t = stack_size_and_noops[where cur = blockCursor and s = emptyScreen and cs = ?cs
      and s' = ?e]
  from t run cr e(1) have "int (length (mWindowStack ?e)) = 0" by simp
  moreover have "raise ?s 1 = ?s"
    using stack_size_and_noops[where s = ?s and fbw = 1] st by blast
  moreover have "lower ?s 1 = ?s"
    using stack_size_and_noops[where s = ?s and fbw = 1] st by simp
  moreover have "lower ?s 3 = ?s"
    using stack_size_and_noops[where s = ?s and fbw = 3] st by simp
  ultimately show ?thesis using run cr st by simp
qed

text \<open>
  \<^verbatim>\<open>lower\<close> looks for the first occurrence of the window. After
  \<^verbatim>\<open>addWindow(1)\<close>, \<^verbatim>\<open>addWindow(2)\<close>, \<^verbatim>\<open>addWindow(1)\<close> the stack is
  \<open>[1, 2, 1]\<close>: window \<open>1\<close> is at the bottom, and \<^verbatim>\<open>lower(1)\<close> moves its
  first occurrence there, which changes the order to \<open>[2, 1, 1]\<close>.
\<close>

theorem lower_bottommost_counterexample:
  "stackAfter blockCursor emptyScreen [AddWindow 1, AddWindow 2, AddWindow 1] = Some [1, 2, 1]
   \<and> stackAfter blockCursor emptyScreen [AddWindow 1, AddWindow 2, AddWindow 1, Lower 1]
       = Some [2, 1, 1]"
proof -
  have f: "fbWindows emptyScreen w = \<lparr>window = w, geometry = \<lparr>x1 = 10, y1 = 10, x2 = 50, y2 = 50\<rparr>,
                          backingStore = Some w, winId = w\<rparr>" for w
    by (simp add: emptyScreen_def scenarioScreen_def)
  have e: "mWindowStack emptyScreen = []" "mPendingBackingStores emptyScreen = []"
    by (simp_all add: emptyScreen_def scenarioScreen_def)
  obtain a where a: "addWindow emptyScreen 1 = Inr a" "mWindowStack a = [1]"
    "fbWindows a = fbWindows emptyScreen" "mPendingBackingStores a = []"
    using addWindow_plain[of emptyScreen 1] e by (auto simp: f)
  obtain b where b: "addWindow a 2 = Inr b" "mWindowStack b = [2, 1]"
    "fbWindows b = fbWindows emptyScreen" "mPendingBackingStores b = []"
    using addWindow_plain[of a 2] a by (auto simp: f)
  obtain c where c: "addWindow b 1 = Inr c" "mWindowStack c = [1, 2, 1]"
    "fbWindows c = fbWindows emptyScreen" "mPendingBackingStores c = []"
    using addWindow_plain[of b 1] b by (auto simp: f)
  have l: "mWindowStack (lower c 1) = [2, 1, 1]"
    by (simp add: lower_def c Let_def stack_simps move_def removeAt_def)
  show ?thesis
    using a b c l by (simp add: stackAfter_def perform_def)
qed


subsection \<open>Adding a window\<close>

lemma attachPending_find:
  "attachPending i s fbw =
     (case find (\<lambda>bs. bsWindow (backingStores s bs) = window (fbWindows s fbw))
             (drop i (mPendingBackingStores s)) of
        None \<Rightarrow> s
      | Some bs \<Rightarrow>
          s\<lparr>fbWindows := (fbWindows s)(fbw := (fbWindows s fbw)\<lparr>backingStore := Some bs\<rparr>),
            mPendingBackingStores :=
              take i (mPendingBackingStores s) @ remove1 bs (drop i (mPendingBackingStores s))\<rparr>)"
proof (induction i s fbw rule: attachPending.induct)
  case (1 i s fbw)
  let ?ps = "mPendingBackingStores s"
  let ?P = "\<lambda>bs. bsWindow (backingStores s bs) = window (fbWindows s fbw)"
  show ?case
  proof (cases "i < length ?ps")
    case False
    then show ?thesis by (subst attachPending.simps) simp
  next
    case True
    then have d: "drop i ?ps = ?ps ! i # drop (Suc i) ?ps"
      by (simp add: Cons_nth_drop_Suc)
    show ?thesis
    proof (cases "?P (?ps ! i)")
      case m: True
      with True show ?thesis
        by (subst attachPending.simps) (simp add: d Let_def removeAt_def)
    next
      case m: False
      have ih: "attachPending (Suc i) s fbw =
        (case find ?P (drop (Suc i) ?ps) of
           None \<Rightarrow> s
         | Some bs \<Rightarrow>
             s\<lparr>fbWindows := (fbWindows s)(fbw := (fbWindows s fbw)\<lparr>backingStore := Some bs\<rparr>),
               mPendingBackingStores := take (Suc i) ?ps @ remove1 bs (drop (Suc i) ?ps)\<rparr>)"
        using 1[OF True refl m] .
      have ne: "bs \<noteq> ?ps ! i" if "find ?P (drop (Suc i) ?ps) = Some bs" for bs
        using that m by (auto simp: find_Some_iff)
      have tk: "take (Suc i) ?ps = take i ?ps @ [?ps ! i]"
        using True by (simp add: take_Suc_conv_app_nth)
      have "attachPending i s fbw = attachPending (Suc i) s fbw"
        using True m by (subst attachPending.simps) (simp add: Let_def)
      then show ?thesis
        unfolding ih d using m ne by (auto simp: tk split: option.splits)
    qed
  qed
qed

lemma addWindow_result:
  assumes "addWindow s fbw = Inr s'"
  shows "backingStore (fbWindows s fbw) \<noteq> None
     \<and> (case find (\<lambda>bs. bsWindow (backingStores s bs) = window (fbWindows s fbw))
               (mPendingBackingStores s) of
          None \<Rightarrow> backingStore (fbWindows s' fbw) = backingStore (fbWindows s fbw)
                  \<and> mPendingBackingStores s' = mPendingBackingStores s
        | Some bs \<Rightarrow> backingStore (fbWindows s' fbw) = Some bs
                  \<and> mPendingBackingStores s' = remove1 bs (mPendingBackingStores s))
     \<and> backingStore (fbWindows s' fbw) \<noteq> None
     \<and> (\<forall>w. w \<noteq> fbw \<longrightarrow> fbWindows s' w = fbWindows s w)"
proof -
  let ?s1 = "s\<lparr>mWindowStack := fbw # mWindowStack s\<rparr>"
  let ?s2 = "attachPending 0 ?s1 fbw"
  from assms have nn: "backingStore (fbWindows s fbw) \<noteq> None"
    by (auto simp: addWindow_def split: if_splits)
  have "attachPending 0 ?s1 fbw = ?s1" if "mPendingBackingStores ?s1 = []"
    using that by (subst attachPending.simps) simp
  then have s2: "(if mPendingBackingStores ?s1 \<noteq> [] then attachPending 0 ?s1 fbw else ?s1) = ?s2"
    by auto
  from assms nn have s': "s' = announceTopWindow (setDirty ?s2 (geometry (fbWindows ?s2 fbw)))"
    unfolding addWindow_def Let_def s2 by simp
  have f: "fbWindows s' = fbWindows ?s2" "mPendingBackingStores s' = mPendingBackingStores ?s2"
    by (simp_all add: s' stack_simps setDirty_other)
  show ?thesis
    using nn unfolding f attachPending_find
    by (auto split: option.splits)
qed

text \<open>
  C10. \<^verbatim>\<open>addWindow\<close> stops at its assertion when the window has no backing store.
  When it returns, the window had a backing store on entry; it has kept it if no
  pending backing store was made for its \<^verbatim>\<open>QWindow\<close>, and the pending list is
  as it was; otherwise it has the first such pending store in its place, and this one
  entry has left the pending list. No other window is touched.
\<close>

theorem addWindow_needs_backing_store:
  "(backingStore (fbWindows s fbw) = None \<longrightarrow> addWindow s fbw = Inl AssertionFailed)
   \<and> (addWindow s fbw = Inr s' \<longrightarrow>
        backingStore (fbWindows s fbw) \<noteq> None
        \<and> (case find (\<lambda>bs. bsWindow (backingStores s bs) = window (fbWindows s fbw))
                  (mPendingBackingStores s) of
             None \<Rightarrow> backingStore (fbWindows s' fbw) = backingStore (fbWindows s fbw)
                     \<and> mPendingBackingStores s' = mPendingBackingStores s
           | Some bs \<Rightarrow> backingStore (fbWindows s' fbw) = Some bs
                     \<and> mPendingBackingStores s' = remove1 bs (mPendingBackingStores s))
        \<and> backingStore (fbWindows s' fbw) \<noteq> None
        \<and> (\<forall>w. w \<noteq> fbw \<longrightarrow> fbWindows s' w = fbWindows s w))"
  using addWindow_result[of s fbw s'] by (simp add: addWindow_def)

theorem addWindow_needs_backing_store_witness:
  "backingStore (fbWindows (pendingScreen None) 2) = None
   \<and> addWindow (pendingScreen None) 2 = Inl AssertionFailed
   \<and> (\<exists>s'. addWindow (pendingScreen (Some 4)) 2 = Inr s'
          \<and> backingStore (fbWindows s' 2) = Some 6
          \<and> mPendingBackingStores s' = [5, 7]
          \<and> fbWindows s' 3 = fbWindows (pendingScreen (Some 4)) 3)"
proof -
  have n: "backingStore (fbWindows (pendingScreen None) 2) = None"
    by (simp add: pendingScreen_def)
  have a: "addWindow (pendingScreen None) 2 = Inl AssertionFailed"
    using addWindow_needs_backing_store[where s = "pendingScreen None" and fbw = 2] n by blast
  obtain s' where s': "addWindow (pendingScreen (Some 4)) 2 = Inr s'"
    by (simp add: addWindow_def pendingScreen_def Let_def)
  have ps: "mPendingBackingStores (pendingScreen (Some 4)) = [5, 6, 7]"
    by (simp add: pendingScreen_def)
  have fd: "find (\<lambda>bs. bsWindow (backingStores (pendingScreen (Some 4)) bs)
                       = window (fbWindows (pendingScreen (Some 4)) 2)) [5, 6, 7] = Some 6"
    by (simp add: pendingScreen_def)
  note t = addWindow_needs_backing_store[where s = "pendingScreen (Some 4)" and fbw = 2
      and s' = s', THEN conjunct2, unfolded ps fd]
  from t s'
  have "backingStore (fbWindows s' 2) = Some 6 \<and> mPendingBackingStores s' = [5, 7]
        \<and> fbWindows s' 3 = fbWindows (pendingScreen (Some 4)) 3"
    by simp
  with n a s' show ?thesis by blast
qed


end
